theory Spec2Isabelle
  imports Complex_Main
begin

section \<open>JavaScript numbers\<close>

text \<open>
  The geography helpers compute with JavaScript numbers. A number is modelled as a real
  or one of the three special values of IEEE 754 arithmetic, so that a division by zero,
  the root of a negative number and an infinite argument give what the language gives
  rather than an arbitrary real. Two things are idealised: finite values are exact reals
  (no rounding, no overflow), and there is a single zero, which behaves as \<open>+0\<close>.
  Where the rounding itself decides what a function returns, the function is given a
  second time with every arithmetic result rounded to double precision (see
  \<open>nearest_double\<close> and \<open>toPolar_double\<close> below).
\<close>

datatype number = Val real | PInf | NInf | NaN

instantiation number :: "{uminus, plus, times, inverse, ord}"
begin

fun uminus_number :: "number \<Rightarrow> number" where
  "uminus_number (Val a) = Val (- a)"
| "uminus_number PInf = NInf"
| "uminus_number NInf = PInf"
| "uminus_number NaN = NaN"

fun plus_number :: "number \<Rightarrow> number \<Rightarrow> number" where
  "plus_number (Val a) (Val b) = Val (a + b)"
| "plus_number NaN _ = NaN"
| "plus_number _ NaN = NaN"
| "plus_number PInf NInf = NaN"
| "plus_number NInf PInf = NaN"
| "plus_number PInf _ = PInf"
| "plus_number _ PInf = PInf"
| "plus_number NInf _ = NInf"
| "plus_number _ NInf = NInf"

fun times_number :: "number \<Rightarrow> number \<Rightarrow> number" where
  "times_number (Val a) (Val b) = Val (a * b)"
| "times_number NaN _ = NaN"
| "times_number _ NaN = NaN"
| "times_number PInf (Val b) = (if 0 < b then PInf else if b < 0 then NInf else NaN)"
| "times_number NInf (Val b) = (if 0 < b then NInf else if b < 0 then PInf else NaN)"
| "times_number (Val a) PInf = (if 0 < a then PInf else if a < 0 then NInf else NaN)"
| "times_number (Val a) NInf = (if 0 < a then NInf else if a < 0 then PInf else NaN)"
| "times_number PInf PInf = PInf"
| "times_number PInf NInf = NInf"
| "times_number NInf PInf = NInf"
| "times_number NInf NInf = PInf"

fun divide_number :: "number \<Rightarrow> number \<Rightarrow> number" where
  "divide_number (Val a) (Val b) =
     (if b = 0 then (if 0 < a then PInf else if a < 0 then NInf else NaN)
      else Val (a / b))"
| "divide_number NaN _ = NaN"
| "divide_number _ NaN = NaN"
| "divide_number (Val a) PInf = Val 0"
| "divide_number (Val a) NInf = Val 0"
| "divide_number PInf (Val b) = (if b < 0 then NInf else PInf)"
| "divide_number NInf (Val b) = (if b < 0 then PInf else NInf)"
| "divide_number _ _ = NaN"

fun inverse_number :: "number \<Rightarrow> number" where
  "inverse_number (Val a) = (if a = 0 then PInf else Val (1 / a))"
| "inverse_number NaN = NaN"
| "inverse_number _ = Val 0"

fun less_number :: "number \<Rightarrow> number \<Rightarrow> bool" where
  "less_number (Val a) (Val b) = (a < b)"
| "less_number NaN _ = False"
| "less_number _ NaN = False"
| "less_number _ NInf = False"
| "less_number PInf _ = False"
| "less_number _ _ = True"

fun less_eq_number :: "number \<Rightarrow> number \<Rightarrow> bool" where
  "less_eq_number (Val a) (Val b) = (a \<le> b)"
| "less_eq_number NaN _ = False"
| "less_eq_number _ NaN = False"
| "less_eq_number NInf _ = True"
| "less_eq_number _ PInf = True"
| "less_eq_number _ _ = False"

instance ..

end

instantiation number :: minus
begin

definition minus_number :: "number \<Rightarrow> number \<Rightarrow> number" where
  "minus_number a b = a + (- b)"

instance ..

end

text \<open>The remainder operator \<open>%\<close>: the result has the sign of the dividend.\<close>

definition trunc :: "real \<Rightarrow> int" where
  "trunc q = (if 0 \<le> q then \<lfloor>q\<rfloor> else \<lceil>q\<rceil>)"

fun remainder :: "number \<Rightarrow> number \<Rightarrow> number" where
  "remainder (Val n) (Val d) = (if d = 0 then NaN else Val (n - d * of_int (trunc (n / d))))"
| "remainder (Val n) PInf = Val n"
| "remainder (Val n) NInf = Val n"
| "remainder _ _ = NaN"

subsection \<open>The functions of \<open>Math\<close>\<close>

definition Math_PI :: number where
  "Math_PI = Val pi"

fun Math_sqrt :: "number \<Rightarrow> number" where
  "Math_sqrt (Val a) = (if a < 0 then NaN else Val (sqrt a))"
| "Math_sqrt PInf = PInf"
| "Math_sqrt _ = NaN"

fun Math_sin :: "number \<Rightarrow> number" where
  "Math_sin (Val a) = Val (sin a)"
| "Math_sin _ = NaN"

fun Math_cos :: "number \<Rightarrow> number" where
  "Math_cos (Val a) = Val (cos a)"
| "Math_cos _ = NaN"

text \<open>
  \<open>Math.pow\<close> and the operator \<open>**\<close>. The source only raises to the literal exponents
  \<open>1.5\<close> and \<open>2\<close>, so the exponent is a real here; the cases follow the language
  definition of exponentiation for a finite exponent.
\<close>

definition odd_integer :: "real \<Rightarrow> bool" where
  "odd_integer e = (frac e = 0 \<and> odd \<lfloor>e\<rfloor>)"

fun Math_pow :: "number \<Rightarrow> real \<Rightarrow> number" where
  "Math_pow NaN e = (if e = 0 then Val 1 else NaN)"
| "Math_pow PInf e = (if e = 0 then Val 1 else if 0 < e then PInf else Val 0)"
| "Math_pow NInf e =
     (if e = 0 then Val 1
      else if 0 < e then (if odd_integer e then NInf else PInf)
      else Val 0)"
| "Math_pow (Val b) e =
     (if e = 0 then Val 1
      else if b = 0 then (if 0 < e then Val 0 else PInf)
      else if 0 < b then Val (b powr e)
      else if frac e = 0 then Val (b powi \<lfloor>e\<rfloor>)
      else NaN)"

text \<open>\<open>Math.atan2 y x\<close>: the angle of the point \<open>(x, y)\<close>, in \<open>[-\<pi>, \<pi>]\<close>.\<close>

definition atan2 :: "real \<Rightarrow> real \<Rightarrow> real" where
  "atan2 y x =
    (if 0 < x then arctan (y / x)
     else if x < 0 then (if 0 \<le> y then arctan (y / x) + pi else arctan (y / x) - pi)
     else if 0 < y then pi / 2
     else if y < 0 then - (pi / 2)
     else 0)"

fun Math_atan2 :: "number \<Rightarrow> number \<Rightarrow> number" where
  "Math_atan2 (Val y) (Val x) = Val (atan2 y x)"
| "Math_atan2 NaN _ = NaN"
| "Math_atan2 _ NaN = NaN"
| "Math_atan2 PInf PInf = Val (pi / 4)"
| "Math_atan2 PInf NInf = Val (3 * pi / 4)"
| "Math_atan2 PInf (Val x) = Val (pi / 2)"
| "Math_atan2 NInf PInf = Val (- (pi / 4))"
| "Math_atan2 NInf NInf = Val (- (3 * pi / 4))"
| "Math_atan2 NInf (Val x) = Val (- (pi / 2))"
| "Math_atan2 (Val y) PInf = Val 0"
| "Math_atan2 (Val y) NInf = Val (if y < 0 then - pi else pi)"

subsection \<open>Printing with a fixed number of fraction digits\<close>

text \<open>
  \<open>Number.prototype.toFixed\<close>: the nearest multiple of \<open>10\<^sup>-\<^sup>f\<close>, the larger one on a tie,
  written with exactly \<open>f\<close> fraction digits. From \<open>10\<^sup>2\<^sup>1\<close> on the language prints the
  number in its shortest exponent notation, which depends on the floating-point
  representation; the model gives no string there (\<open>None\<close>). The number of fraction
  digits is a natural number (the language rejects more than 100).
\<close>

fun digits :: "nat \<Rightarrow> string" where
  "digits n =
     (if n < 10 then [''0123456789'' ! n]
      else digits (n div 10) @ [''0123456789'' ! (n mod 10)])"

declare digits.simps [simp del]

definition toFixed :: "number \<Rightarrow> nat \<Rightarrow> string option" where
  "toFixed x f =
    (case x of
       NaN \<Rightarrow> Some ''NaN''
     | PInf \<Rightarrow> Some ''Infinity''
     | NInf \<Rightarrow> Some ''-Infinity''
     | Val v \<Rightarrow>
        (let s = (if v < 0 then ''-'' else []);
             a = \<bar>v\<bar>
         in if 10 ^ 21 \<le> a then None
            else
             (let n = nat \<lfloor>a * 10 ^ f + 1 / 2\<rfloor>;
                  m = digits n;
                  m = (if f \<noteq> 0
                       then (let m = replicate (f + 1 - length m) (CHR ''0'') @ m;
                                 k = length m
                             in take (k - f) m @ ''.'' @ drop (k - f) m)
                       else m)
              in Some (s @ m))))"

subsection \<open>Rounding to double precision\<close>

text \<open>
  The result of an arithmetic operation of the language is the double nearest to the
  exact result: 53 significant bits, a binary exponent from -1022 (below which the
  spacing of the doubles stays the same) to 1023, a tie going to the even significand,
  and a result of magnitude \<open>2 ^ 1024\<close> or more after rounding being infinite.
  \<open>ulp x\<close> is the spacing of the doubles at a non-zero \<open>x\<close>.
\<close>

definition round_half_even :: "real \<Rightarrow> int" where
  "round_half_even v =
    (let n = \<lfloor>v\<rfloor>; r = v - of_int n
     in if r < 1 / 2 then n else if 1 / 2 < r then n + 1 else if even n then n else n + 1)"

definition ulp :: "real \<Rightarrow> real" where
  "ulp x = 2 powr of_int (max \<lfloor>log 2 \<bar>x\<bar>\<rfloor> (- 1022) - 52)"

definition nearest_double :: "real \<Rightarrow> real" where
  "nearest_double x =
    (if x = 0 then 0 else sgn x * (of_int (round_half_even (\<bar>x\<bar> / ulp x)) * ulp x))"

fun double :: "number \<Rightarrow> number" where
  "double (Val x) =
     (let y = nearest_double x
      in if 2 ^ 1024 \<le> y then PInf else if y \<le> - (2 ^ 1024) then NInf else Val y)"
| "double PInf = PInf"
| "double NInf = NInf"
| "double NaN = NaN"

declare double.simps(1) [simp del]

section \<open>The ellipsoid model\<close>

record EllipsoidModel =
  inverseFlattening :: number
  semiMajorAxis :: number
  flattening :: number
  eccentricitySquared :: number
  eccentricity :: number
  semiMinorAxis :: number
  meanRadius :: number

definition makeEllipsoidModel :: "number \<Rightarrow> number \<Rightarrow> EllipsoidModel" where
  "makeEllipsoidModel semiMajorAxis' inverseFlattening' =
    (let flattening' = Val 1.0 / inverseFlattening';
         eccentricitySquared' = flattening' * (Val 2 - flattening');
         eccentricity' = Math_sqrt eccentricitySquared';
         semiMinorAxis' = semiMajorAxis' * (Val 1 - flattening');
         meanRadius' = (semiMinorAxis' + semiMajorAxis' * Val 2) / Val 3
     in \<lparr> inverseFlattening = inverseFlattening',
          semiMajorAxis = semiMajorAxis',
          flattening = flattening',
          eccentricitySquared = eccentricitySquared',
          eccentricity = eccentricity',
          semiMinorAxis = semiMinorAxis',
          meanRadius = meanRadius' \<rparr>)"

definition WGS84 :: EllipsoidModel where
  "WGS84 = makeEllipsoidModel (Val 6378137) (Val 298.257223563)"

section \<open>Free functions on angles and coordinates\<close>

definition normalizeAngle :: "number \<Rightarrow> string option" where
  "normalizeAngle angle = toFixed (remainder (remainder angle (Val 360) + Val 360) (Val 360)) 2"

text \<open>
  A coordinate is an array of two numbers; where only its two elements matter it is
  modelled as a pair, \<open>fst\<close> for index 0 and \<open>snd\<close> for index 1.
\<close>

type_synonym coordinate = "number \<times> number"

definition toPolar :: "coordinate \<Rightarrow> coordinate" where
  "toPolar coords =
    (let dist = Math_sqrt (fst coords * fst coords + snd coords * snd coords)
     in if Val 0 < dist
        then (let angle = Math_atan2 (snd coords) (fst coords) * Val 180 / Math_PI
              in (dist, if angle < Val 0 then angle + Val 360 else angle))
        else (Val 0, Val 0))"

text \<open>
  The same function as the program computes it, in double arithmetic: the result of each
  multiplication, addition and division and of each call of \<open>Math\<close> is rounded to the
  nearest double, and \<open>Math.PI\<close> is the double nearest to \<open>\<pi>\<close>. (The language leaves the
  precision of \<open>Math.atan2\<close> to the implementation; it is taken as correctly rounded.)
  The literals 180 and 360 are doubles.
\<close>

definition toPolar_double :: "coordinate \<Rightarrow> coordinate" where
  "toPolar_double coords =
    (let dist = double (Math_sqrt (double (double (fst coords * fst coords)
                                          + double (snd coords * snd coords))))
     in if Val 0 < dist
        then (let angle = double (double (double (Math_atan2 (snd coords) (fst coords)) * Val 180)
                                  / double Math_PI)
              in (dist, if angle < Val 0 then double (angle + Val 360) else angle))
        else (Val 0, Val 0))"

text \<open>
  Modelled from the spec: \<open>Coordinate.rotate\<close> is the function \<open>rotate\<close> of the mapping
  library's \<open>ol/coordinate\<close> module, which is not part of the sources. The specification
  calls it the standard rotation of the plane; the library computes it as below and
  writes the result back into the array it was given.
\<close>

definition Coordinate_rotate :: "coordinate \<Rightarrow> number \<Rightarrow> coordinate" where
  "Coordinate_rotate coordinate angle =
    (let cosAngle = Math_cos angle;
         sinAngle = Math_sin angle;
         x = fst coordinate * cosAngle - snd coordinate * sinAngle;
         y = snd coordinate * cosAngle + fst coordinate * sinAngle
     in (x, y))"

section \<open>The flat-Earth coordinate system\<close>

datatype error = Error string

text \<open>
  The object holds a reference to the origin array it was given. Where only the elements
  of the origin matter the field holds the pair of them; in the store model further down
  it holds the reference. The type parameter is the type of that field.
\<close>

record 'origin FlatEarthCoordinateSystem =
  this_origin :: 'origin
  this_angle :: number
  this_ellipsoid :: EllipsoidModel
  this_type :: string
  this_piOver180 :: number
  this_r1 :: number
  this_r2OverCosOriginLatInRadians :: number
  this_yMul :: number

definition precalculate ::
  "coordinate FlatEarthCoordinateSystem \<Rightarrow> coordinate FlatEarthCoordinateSystem" where
  "precalculate this =
    (let piOver180 = Math_PI / Val 180;
         originLatInRadians = snd (this_origin this) * piOver180;
         radius = semiMajorAxis (this_ellipsoid this);
         eccSq = eccentricitySquared (this_ellipsoid this);
         x = Val 1 - eccSq * Math_pow (Math_sin originLatInRadians) 2
     in this
         \<lparr> this_piOver180 := piOver180,
           this_r1 := radius * (Val 1 - eccSq) / Math_pow x 1.5,
           this_r2OverCosOriginLatInRadians :=
             radius / Math_sqrt x * Math_cos originLatInRadians,
           this_yMul := (if this_type this = ''neu'' then Val 1 else Val (- 1)) \<rparr>)"

text \<open>
  The constructor. An argument left out is \<open>None\<close> and takes its default. The four
  cached fields do not exist before \<open>precalculate\<close> sets them; the record holds \<open>NaN\<close>
  there until then.
\<close>

definition new_FlatEarthCoordinateSystem ::
  "coordinate \<Rightarrow> number option \<Rightarrow> string option \<Rightarrow> EllipsoidModel option
    \<Rightarrow> error + coordinate FlatEarthCoordinateSystem" where
  "new_FlatEarthCoordinateSystem origin angle_arg type_arg ellipsoid_arg =
    (let angle = (case angle_arg of None \<Rightarrow> Val 0 | Some a \<Rightarrow> a);
         type' = (case type_arg of None \<Rightarrow> ''neu'' | Some t \<Rightarrow> t);
         ellipsoid = (case ellipsoid_arg of None \<Rightarrow> WGS84 | Some e \<Rightarrow> e)
     in if type' \<noteq> ''neu'' \<and> type' \<noteq> ''nwu''
        then Inl (Error (''unknown coordinate system type: '' @ type'))
        else Inr (precalculate
          \<lparr> this_origin = origin,
            this_angle = angle * Math_PI / Val 180,
            this_ellipsoid = ellipsoid,
            this_type = type',
            this_piOver180 = NaN,
            this_r1 = NaN,
            this_r2OverCosOriginLatInRadians = NaN,
            this_yMul = NaN \<rparr>))"

definition fromLonLat ::
  "coordinate FlatEarthCoordinateSystem \<Rightarrow> coordinate \<Rightarrow> coordinate" where
  "fromLonLat this coords =
    (let result =
           ((snd coords - snd (this_origin this)) * this_piOver180 this * this_r1 this,
            (fst coords - fst (this_origin this)) * this_piOver180 this
              * this_r2OverCosOriginLatInRadians this);
         result = Coordinate_rotate result (- this_angle this);
         result = (fst result, snd result * this_yMul this)
     in result)"

definition toLonLat ::
  "coordinate FlatEarthCoordinateSystem \<Rightarrow> coordinate \<Rightarrow> coordinate" where
  "toLonLat this coords =
    (let result = (fst coords, snd coords * this_yMul this);
         result = Coordinate_rotate result (this_angle this)
     in (snd result / this_r2OverCosOriginLatInRadians this / this_piOver180 this
           + fst (this_origin this),
         fst result / this_r1 this / this_piOver180 this + snd (this_origin this)))"

section \<open>The two conversions on arrays in a store\<close>

text \<open>
  To say which arrays a conversion writes, arrays live in a store: a reference is an
  index into the list of all arrays allocated so far, and a new array is appended.
  Reading an element that an array does not have gives \<open>undefined\<close>, which every
  arithmetic operation turns into \<open>NaN\<close>; writing at an index past the end extends the
  array. The object holds its origin as a reference into the store, so the argument of a
  conversion may well be the origin array itself.
\<close>

type_synonym ref = nat
type_synonym store = "number list list"

definition new_array :: "number list \<Rightarrow> store \<Rightarrow> ref \<times> store" where
  "new_array xs h = (length h, h @ [xs])"

definition get_elem :: "store \<Rightarrow> ref \<Rightarrow> nat \<Rightarrow> number" where
  "get_elem h r i =
    (if r < length h \<and> i < length (h ! r) then h ! r ! i else NaN)"

definition set_elem :: "store \<Rightarrow> ref \<Rightarrow> nat \<Rightarrow> number \<Rightarrow> store" where
  "set_elem h r i v =
    (if r < length h
     then h[r := (let xs = h ! r
                  in if i < length xs then xs[i := v]
                     else xs @ replicate (i - length xs) NaN @ [v])]
     else h)"

definition Coordinate_rotate_at :: "ref \<Rightarrow> number \<Rightarrow> store \<Rightarrow> store" where
  "Coordinate_rotate_at coordinate angle h =
    (let cosAngle = Math_cos angle;
         sinAngle = Math_sin angle;
         x = get_elem h coordinate 0 * cosAngle - get_elem h coordinate 1 * sinAngle;
         y = get_elem h coordinate 1 * cosAngle + get_elem h coordinate 0 * sinAngle;
         h = set_elem h coordinate 0 x;
         h = set_elem h coordinate 1 y
     in h)"

definition fromLonLat_at ::
  "ref FlatEarthCoordinateSystem \<Rightarrow> ref \<Rightarrow> store \<Rightarrow> ref \<times> store" where
  "fromLonLat_at this coords h =
    (let (result, h) = new_array
           [(get_elem h coords 1 - get_elem h (this_origin this) 1) * this_piOver180 this
              * this_r1 this,
            (get_elem h coords 0 - get_elem h (this_origin this) 0) * this_piOver180 this
              * this_r2OverCosOriginLatInRadians this] h;
         h = Coordinate_rotate_at result (- this_angle this) h;
         h = set_elem h result 1 (get_elem h result 1 * this_yMul this)
     in (result, h))"

definition toLonLat_at ::
  "ref FlatEarthCoordinateSystem \<Rightarrow> ref \<Rightarrow> store \<Rightarrow> ref \<times> store" where
  "toLonLat_at this coords h =
    (let (result, h) = new_array
           [get_elem h coords 0, get_elem h coords 1 * this_yMul this] h;
         h = Coordinate_rotate_at result (this_angle this) h
     in new_array
          [get_elem h result 1 / this_r2OverCosOriginLatInRadians this
             / this_piOver180 this + get_elem h (this_origin this) 0,
           get_elem h result 0 / this_r1 this / this_piOver180 this
             + get_elem h (this_origin this) 1] h)"

text \<open>The object as the two conversions on pairs see it: with the elements of its origin.\<close>

definition with_origin_of ::
  "store \<Rightarrow> ref FlatEarthCoordinateSystem \<Rightarrow> coordinate FlatEarthCoordinateSystem" where
  "with_origin_of h this =
    \<lparr> this_origin = (get_elem h (this_origin this) 0, get_elem h (this_origin this) 1),
      this_angle = this_angle this,
      this_ellipsoid = this_ellipsoid this,
      this_type = this_type this,
      this_piOver180 = this_piOver180 this,
      this_r1 = this_r1 this,
      this_r2OverCosOriginLatInRadians = this_r2OverCosOriginLatInRadians this,
      this_yMul = this_yMul this \<rparr>"

section \<open>The formulas of the specification\<close>

text \<open>
  The specification gives the cached coefficients as formulas over the reals: with
  \<open>e\<^sup>2\<close> the squared eccentricity and \<open>lat\<^sub>0\<close> the origin latitude in radians,
  \<open>x = 1 - e\<^sup>2 sin\<^sup>2 lat\<^sub>0\<close>, \<open>r1 = a (1 - e\<^sup>2) / x\<^sup>1\<^sup>.\<^sup>5\<close> and
  \<open>r2_over_cos = a / sqrt x * cos lat\<^sub>0\<close>. They are written down here from the
  specification's words, to be compared with what \<open>precalculate\<close> computes. The origin
  latitude is given in degrees.
\<close>

definition spec_x :: "real \<Rightarrow> real \<Rightarrow> real" where
  "spec_x q olat = 1 - q * (sin (olat * (pi / 180)))\<^sup>2"

definition spec_r1 :: "real \<Rightarrow> real \<Rightarrow> real \<Rightarrow> real" where
  "spec_r1 a q olat = a * (1 - q) / (spec_x q olat powr 1.5)"

definition spec_r2_over_cos :: "real \<Rightarrow> real \<Rightarrow> real \<Rightarrow> real" where
  "spec_r2_over_cos a q olat = a / sqrt (spec_x q olat) * cos (olat * (pi / 180))"

text \<open>The squared eccentricity that the factory computes for \<open>WGS84\<close>.\<close>

definition WGS84_e2 :: real where
  "WGS84_e2 = 1 / 298.257223563 * (2 - 1 / 298.257223563)"

text \<open>
  A physically valid ellipsoid: a positive semi-major axis and a squared eccentricity in
  \<open>[0, 1)\<close>, the two fields the coordinate system reads.
\<close>

definition physically_valid :: "EllipsoidModel \<Rightarrow> bool" where
  "physically_valid e =
    (case (semiMajorAxis e, eccentricitySquared e) of
       (Val a, Val q) \<Rightarrow> 0 < a \<and> 0 \<le> q \<and> q < 1
     | _ \<Rightarrow> False)"

section \<open>Arithmetic on finite numbers\<close>

lemma minus_Val [simp]: "Val a - Val b = Val (a - b)"
  by (simp add: minus_number_def)

lemma Math_pow_2 [simp]: "Math_pow (Val b) 2 = Val (b\<^sup>2)"
  by (cases "0 < b") (auto simp: powr_numeral)

lemma precalculate_finite:
  assumes "semiMajorAxis (this_ellipsoid this) = Val a"
    and "eccentricitySquared (this_ellipsoid this) = Val q"
    and "this_origin this = (Val olon, Val olat)"
    and "0 < spec_x q olat"
  shows "precalculate this = this
         \<lparr> this_piOver180 := Val (pi / 180),
           this_r1 := Val (spec_r1 a q olat),
           this_r2OverCosOriginLatInRadians := Val (spec_r2_over_cos a q olat),
           this_yMul := (if this_type this = ''neu'' then Val 1 else Val (- 1)) \<rparr>"
proof -
  have x: "Val 1 - Val q * Math_pow (Math_sin (Val olat * (Math_PI / Val 180))) 2
      = Val (spec_x q olat)"
    by (simp add: Math_PI_def spec_x_def)
  have nz: "spec_x q olat powr 1.5 \<noteq> 0" "sqrt (spec_x q olat) \<noteq> 0"
    using assms(4) by simp_all
  show ?thesis
    unfolding precalculate_def Let_def assms(1,2,3) snd_conv x
    using assms(4) nz
    by (simp add: Math_PI_def spec_r1_def spec_r2_over_cos_def)
qed

lemma new_FlatEarthCoordinateSystem_finite:
  assumes "t = ''neu'' \<or> t = ''nwu''"
    and "semiMajorAxis ell = Val a"
    and "eccentricitySquared ell = Val q"
    and "0 < spec_x q olat"
  shows "new_FlatEarthCoordinateSystem (Val olon, Val olat) (Some (Val ang)) (Some t) (Some ell)
    = Inr \<lparr> this_origin = (Val olon, Val olat),
            this_angle = Val (ang * pi / 180),
            this_ellipsoid = ell,
            this_type = t,
            this_piOver180 = Val (pi / 180),
            this_r1 = Val (spec_r1 a q olat),
            this_r2OverCosOriginLatInRadians = Val (spec_r2_over_cos a q olat),
            this_yMul = Val (if t = ''neu'' then 1 else - 1) \<rparr>"
proof -
  let ?cs = "\<lparr> this_origin = (Val olon, Val olat),
            this_angle = Val ang * Math_PI / Val 180,
            this_ellipsoid = ell,
            this_type = t,
            this_piOver180 = NaN,
            this_r1 = NaN,
            this_r2OverCosOriginLatInRadians = NaN,
            this_yMul = NaN \<rparr>"
  have "precalculate ?cs = ?cs
         \<lparr> this_piOver180 := Val (pi / 180),
           this_r1 := Val (spec_r1 a q olat),
           this_r2OverCosOriginLatInRadians := Val (spec_r2_over_cos a q olat),
           this_yMul := (if this_type ?cs = ''neu'' then Val 1 else Val (- 1)) \<rparr>"
    by (rule precalculate_finite) (simp_all add: assms)
  then show ?thesis
    using assms(1) by (auto simp: new_FlatEarthCoordinateSystem_def Math_PI_def)
qed

lemma Coordinate_rotate_Val:
  "Coordinate_rotate (Val x, Val y) (Val t)
    = (Val (x * cos t - y * sin t), Val (y * cos t + x * sin t))"
  by (simp add: Coordinate_rotate_def)

lemma fromLonLat_finite:
  assumes "this_origin this = (Val olon, Val olat)"
    and "this_angle this = Val \<theta>"
    and "this_piOver180 this = Val k"
    and "this_r1 this = Val r1"
    and "this_r2OverCosOriginLatInRadians this = Val r2"
    and "this_yMul this = Val ym"
  shows "fromLonLat this (Val lon, Val lat)
    = (Val ((lat - olat) * k * r1 * cos \<theta> + (lon - olon) * k * r2 * sin \<theta>),
       Val (((lon - olon) * k * r2 * cos \<theta> - (lat - olat) * k * r1 * sin \<theta>) * ym))"
  by (simp add: fromLonLat_def assms Coordinate_rotate_Val)

lemma toLonLat_finite:
  assumes "this_origin this = (Val olon, Val olat)"
    and "this_angle this = Val \<theta>"
    and "this_piOver180 this = Val k"
    and "this_r1 this = Val r1"
    and "this_r2OverCosOriginLatInRadians this = Val r2"
    and "this_yMul this = Val ym"
    and "k \<noteq> 0" and "r1 \<noteq> 0" and "r2 \<noteq> 0"
  shows "toLonLat this (Val x, Val y)
    = (Val ((y * ym * cos \<theta> + x * sin \<theta>) / r2 / k + olon),
       Val ((x * cos \<theta> - y * ym * sin \<theta>) / r1 / k + olat))"
  by (simp add: toLonLat_def assms Coordinate_rotate_Val)



lemma rotate_forth:
  fixes x y c s :: real
  assumes "c\<^sup>2 + s\<^sup>2 = 1"
  shows "(x * c - y * s) * c + (y * c + x * s) * s = x"
    and "(y * c + x * s) * c - (x * c - y * s) * s = y"
proof -
  have "(x * c - y * s) * c + (y * c + x * s) * s = x * (c\<^sup>2 + s\<^sup>2)"
    by (simp add: algebra_simps power2_eq_square)
  then show "(x * c - y * s) * c + (y * c + x * s) * s = x"
    by (simp add: assms)
  have "(y * c + x * s) * c - (x * c - y * s) * s = y * (c\<^sup>2 + s\<^sup>2)"
    by (simp add: algebra_simps power2_eq_square)
  then show "(y * c + x * s) * c - (x * c - y * s) * s = y"
    by (simp add: assms)
qed

lemma roundtrip_planar:
  assumes "this_origin this = (Val olon, Val olat)"
    and "this_angle this = Val \<theta>"
    and "this_piOver180 this = Val k"
    and "this_r1 this = Val r1"
    and "this_r2OverCosOriginLatInRadians this = Val r2"
    and "this_yMul this = Val ym"
    and "k \<noteq> 0" and "r1 \<noteq> 0" and "r2 \<noteq> 0" and "ym * ym = 1"
  shows "fromLonLat this (toLonLat this (Val x, Val y)) = (Val x, Val y)"
proof -
  let ?c = "cos \<theta>" and ?s = "sin \<theta>"
  let ?u = "x * ?c - y * ym * ?s" and ?v = "y * ym * ?c + x * ?s"
  have cs: "?c\<^sup>2 + ?s\<^sup>2 = 1" by simp
  have undo: "(?v / r2 / k + olon - olon) * k * r2 = ?v" "(?u / r1 / k + olat - olat) * k * r1 = ?u"
    using assms(7-9) by simp_all
  have second: "y * ym * ym = y"
    using assms(10) by (simp add: mult.assoc)
  have "fromLonLat this (toLonLat this (Val x, Val y))
      = (Val (?u * ?c + ?v * ?s), Val ((?v * ?c - ?u * ?s) * ym))"
    unfolding toLonLat_finite [OF assms(1-9)] fromLonLat_finite [OF assms(1-6)] undo ..
  then show ?thesis
    unfolding rotate_forth [OF cs] second .
qed

lemma physically_validD:
  assumes "physically_valid e"
  obtains a q where "semiMajorAxis e = Val a" "eccentricitySquared e = Val q"
    "0 < a" "0 \<le> q" "q < 1"
  using assms unfolding physically_valid_def
  by (auto split: number.splits)

lemma spec_x_positive:
  assumes "q < 1"
  shows "0 < spec_x q olat"
proof -
  have s: "(sin (olat * (pi / 180)))\<^sup>2 \<le> 1"
    by (simp add: abs_square_le_1 abs_sin_le_one)
  have s0: "0 \<le> (sin (olat * (pi / 180)))\<^sup>2"
    by simp
  have "q * (sin (olat * (pi / 180)))\<^sup>2 < 1"
  proof (cases "0 \<le> q")
    case True
    then have "q * (sin (olat * (pi / 180)))\<^sup>2 \<le> q * 1"
      using s by (intro mult_left_mono) simp_all
    then show ?thesis using assms by simp
  next
    case False
    then have "q * (sin (olat * (pi / 180)))\<^sup>2 \<le> 0"
      using s0 by (simp add: mult_nonpos_nonneg)
    then show ?thesis by simp
  qed
  then show ?thesis by (simp add: spec_x_def)
qed

lemma cos_degrees_nonzero:
  assumes "\<bar>olat\<bar> < 90"
  shows "cos (olat * (pi / 180)) \<noteq> 0"
proof -
  have k: "0 < pi / 180" by simp
  have "- 90 * (pi / 180) < olat * (pi / 180)" "olat * (pi / 180) < 90 * (pi / 180)"
    using assms by (simp_all only: mult_less_cancel_right_pos [OF k] abs_less_iff) simp_all
  then have "- (pi / 2) < olat * (pi / 180)" "olat * (pi / 180) < pi / 2"
    by simp_all
  then have "0 < cos (olat * (pi / 180))"
    by (rule cos_gt_zero_pi)
  then show ?thesis by simp
qed

lemma spec_r1_nonzero:
  assumes "a \<noteq> 0" "q < 1"
  shows "spec_r1 a q olat \<noteq> 0"
  using assms spec_x_positive [OF assms(2), of olat] by (simp add: spec_r1_def)

lemma spec_r2_over_cos_nonzero:
  assumes "a \<noteq> 0" "q < 1" "\<bar>olat\<bar> < 90"
  shows "spec_r2_over_cos a q olat \<noteq> 0"
  using assms(1) spec_x_positive [OF assms(2), of olat] cos_degrees_nonzero [OF assms(3)]
  by (simp add: spec_r2_over_cos_def)

text \<open>
  The ellipsoids the factory makes from a positive semi-major axis and an inverse
  flattening above 1, or an infinite one, are physically valid; \<open>WGS84\<close> is one of them.
\<close>

lemma physically_valid_makeEllipsoidModel:
  assumes "0 < a" and "1 < i"
  shows "physically_valid (makeEllipsoidModel (Val a) (Val i))"
    and "physically_valid (makeEllipsoidModel (Val a) PInf)"
proof -
  let ?f = "1 / i"
  have f: "0 < ?f" "?f < 1"
    using assms(2) by simp_all
  have "0 \<le> 2 - ?f"
    using f(2) by linarith
  then have "0 \<le> ?f * (2 - ?f)"
    using f(1) by (intro mult_nonneg_nonneg) simp_all
  moreover have "?f * (2 - ?f) = 1 - (1 - ?f)\<^sup>2"
    by (simp add: power2_eq_square algebra_simps)
  moreover have "0 < (1 - ?f)\<^sup>2"
    using f by simp
  ultimately have "0 \<le> ?f * (2 - ?f)" "?f * (2 - ?f) < 1"
    by linarith+
  then show "physically_valid (makeEllipsoidModel (Val a) (Val i))"
    using assms by (simp add: physically_valid_def makeEllipsoidModel_def Let_def)
  show "physically_valid (makeEllipsoidModel (Val a) PInf)"
    using assms(1) by (simp add: physically_valid_def makeEllipsoidModel_def Let_def)
qed

lemma physically_valid_WGS84: "physically_valid WGS84"
  by (simp add: physically_valid_def WGS84_def makeEllipsoidModel_def)

text \<open>
  What the constructor stores whenever it returns an object, whatever the ellipsoid: the
  origin it was given, the angle in radians, \<open>\<pi>/180\<close> and the sign of the second axis.
  The two cached coefficients do not depend on the convention.
\<close>

lemma constructed_fields:
  assumes "new_FlatEarthCoordinateSystem origin angle_arg type_arg ellipsoid_arg = Inr this"
  shows "this_origin this = origin"
    and "this_angle this = (case angle_arg of None \<Rightarrow> Val 0 | Some a \<Rightarrow> a) * Math_PI / Val 180"
    and "this_piOver180 this = Val (pi / 180)"
    and "this_type this = (case type_arg of None \<Rightarrow> ''neu'' | Some t \<Rightarrow> t)"
    and "this_yMul this = (if this_type this = ''neu'' then Val 1 else Val (- 1))"
  using assms
  by (auto simp: new_FlatEarthCoordinateSystem_def precalculate_def Math_PI_def Let_def
      split: if_splits)

lemma constructed_coefficients:
  assumes "new_FlatEarthCoordinateSystem origin angle_arg (Some t) ellipsoid_arg = Inr this"
    and "new_FlatEarthCoordinateSystem origin angle_arg (Some t') ellipsoid_arg = Inr this'"
  shows "this_r1 this' = this_r1 this"
    and "this_r2OverCosOriginLatInRadians this' = this_r2OverCosOriginLatInRadians this"
  using assms
  by (auto simp: new_FlatEarthCoordinateSystem_def precalculate_def Let_def split: if_splits)

lemma new_FlatEarthCoordinateSystem_defaults:
  "new_FlatEarthCoordinateSystem origin None type_arg ellipsoid_arg
    = new_FlatEarthCoordinateSystem origin (Some (Val 0)) type_arg ellipsoid_arg"
  "new_FlatEarthCoordinateSystem origin angle_arg type_arg None
    = new_FlatEarthCoordinateSystem origin angle_arg type_arg (Some WGS84)"
  by (simp_all add: new_FlatEarthCoordinateSystem_def)

text \<open>The object constructed over \<open>WGS84\<close>, at any finite origin.\<close>

lemma WGS84_system:
  assumes "t = ''neu'' \<or> t = ''nwu''"
  shows "new_FlatEarthCoordinateSystem (Val olon, Val olat) (Some (Val ang)) (Some t) (Some WGS84)
    = Inr \<lparr> this_origin = (Val olon, Val olat),
            this_angle = Val (ang * pi / 180),
            this_ellipsoid = WGS84,
            this_type = t,
            this_piOver180 = Val (pi / 180),
            this_r1 = Val (spec_r1 6378137 WGS84_e2 olat),
            this_r2OverCosOriginLatInRadians = Val (spec_r2_over_cos 6378137 WGS84_e2 olat),
            this_yMul = Val (if t = ''neu'' then 1 else - 1) \<rparr>"
proof -
  have "WGS84_e2 < 1"
    by (simp add: WGS84_e2_def)
  then have "0 < spec_x WGS84_e2 olat"
    by (rule spec_x_positive)
  with assms show ?thesis
    by (intro new_FlatEarthCoordinateSystem_finite)
      (simp_all add: WGS84_def makeEllipsoidModel_def Let_def WGS84_e2_def)
qed

section \<open>Round trips\<close>



text \<open>
  Claim C9. Under the same conditions the round trip also holds in the other direction:
  converting a planar pair to longitude and latitude and back gives the pair again,
  exactly over the reals.
\<close>

theorem planar_roundtrip:
  assumes "t = ''neu'' \<or> t = ''nwu''" and "\<bar>olat\<bar> < 90" and "physically_valid ell"
  shows "\<exists>this. new_FlatEarthCoordinateSystem (Val olon, Val olat) (Some (Val ang)) (Some t)
              (Some ell) = Inr this
          \<and> fromLonLat this (toLonLat this (Val x, Val y)) = (Val x, Val y)"
proof -
  from assms(3) obtain a q where ell: "semiMajorAxis ell = Val a" "eccentricitySquared ell = Val q"
    and a: "0 < a" and q: "q < 1"
    by (rule physically_validD)
  let ?cs = "\<lparr> this_origin = (Val olon, Val olat),
            this_angle = Val (ang * pi / 180),
            this_ellipsoid = ell,
            this_type = t,
            this_piOver180 = Val (pi / 180),
            this_r1 = Val (spec_r1 a q olat),
            this_r2OverCosOriginLatInRadians = Val (spec_r2_over_cos a q olat),
            this_yMul = Val (if t = ''neu'' then 1 else - 1) \<rparr>"
  have new: "new_FlatEarthCoordinateSystem (Val olon, Val olat) (Some (Val ang)) (Some t) (Some ell)
      = Inr ?cs"
    using assms(1) ell spec_x_positive [OF q] by (rule new_FlatEarthCoordinateSystem_finite)
  have r1: "spec_r1 a q olat \<noteq> 0"
    using a q by (simp add: spec_r1_nonzero)
  have r2: "spec_r2_over_cos a q olat \<noteq> 0"
    using a q assms(2) by (simp add: spec_r2_over_cos_nonzero)
  have "fromLonLat ?cs (toLonLat ?cs (Val x, Val y)) = (Val x, Val y)"
    by (rule roundtrip_planar [where olon = olon and olat = olat and \<theta> = "ang * pi / 180"
          and k = "pi / 180" and ?r1.0 = "spec_r1 a q olat"
          and ?r2.0 = "spec_r2_over_cos a q olat" and ym = "if t = ''neu'' then 1 else - 1"])
      (use r1 r2 in simp_all)
  with new show ?thesis by blast
qed

theorem planar_roundtrip_witness:
  "(''neu'' = ''neu'' \<or> ''neu'' = ''nwu'') \<and> \<bar>- 33 :: real\<bar> < 90 \<and> physically_valid WGS84
   \<and> (\<exists>this. new_FlatEarthCoordinateSystem (Val 151, Val (- 33)) (Some (Val 45)) (Some ''neu'')
              (Some WGS84) = Inr this
          \<and> fromLonLat this (toLonLat this (Val 100, Val (- 250))) = (Val 100, Val (- 250)))"
  using planar_roundtrip [where t = "''neu''" and olat = "- 33" and ell = WGS84 and olon = 151
      and ang = 45 and x = 100 and y = "- 250"] physically_valid_WGS84
  by simp

section \<open>The origin\<close>

text \<open>
  The factory accepts an inverse flattening of 1, which gives a squared eccentricity of 1
  (a disc). At a pole \<open>x = 1 - e\<^sup>2 sin\<^sup>2 lat\<^sub>0\<close> is then zero and the cached \<open>r1\<close> is
  \<open>0 / 0\<close>, which is \<open>NaN\<close>. The north term of the origin is \<open>0 * (\<pi>/180) * r1\<close>, and zero
  times \<open>NaN\<close> is \<open>NaN\<close>, which the rotation spreads to both components.
\<close>

lemma degenerate_ellipsoid:
  "makeEllipsoidModel (Val 6378137) (Val 1)
    = \<lparr> inverseFlattening = Val 1, semiMajorAxis = Val 6378137, flattening = Val 1,
        eccentricitySquared = Val 1, eccentricity = Val 1, semiMinorAxis = Val 0,
        meanRadius = Val (12756274 / 3) \<rparr>"
  by (simp add: makeEllipsoidModel_def Let_def)

text \<open>
  Claim C3, as stated, fails: with that ellipsoid and the origin at the north pole the
  construction succeeds, the cached \<open>r1\<close> is \<open>NaN\<close>, and the origin is mapped to
  \<open>(NaN, NaN)\<close>, not to \<open>(0, 0)\<close>.
\<close>

theorem fromLonLat_origin_counterexample:
  "\<not> isl (new_FlatEarthCoordinateSystem (Val 0, Val 90) (Some (Val 0)) (Some ''neu'')
            (Some (makeEllipsoidModel (Val 6378137) (Val 1))))
   \<and> this_r1 (projr (new_FlatEarthCoordinateSystem (Val 0, Val 90) (Some (Val 0)) (Some ''neu'')
            (Some (makeEllipsoidModel (Val 6378137) (Val 1))))) = NaN
   \<and> fromLonLat
        (projr (new_FlatEarthCoordinateSystem (Val 0, Val 90) (Some (Val 0)) (Some ''neu'')
            (Some (makeEllipsoidModel (Val 6378137) (Val 1)))))
        (Val 0, Val 90) = (NaN, NaN)"
  unfolding degenerate_ellipsoid
  by (simp add: new_FlatEarthCoordinateSystem_def precalculate_def Math_PI_def fromLonLat_def
      Coordinate_rotate_def Let_def minus_number_def)

text \<open>
  With a finite origin, \<open>\<pi>/180\<close> and the sign of the second axis, the image of the origin
  is \<open>(0, 0)\<close> exactly when the angle and the two cached coefficients are finite numbers:
  the two differences are zero, zero times a finite number is zero and zero times any
  other number is \<open>NaN\<close>, and rotating by an angle that is not finite gives \<open>NaN\<close>.
\<close>

lemma origin_image:
  assumes "this_origin this = (Val olon, Val olat)"
    and "this_piOver180 this = Val k"
    and "this_yMul this = Val ym"
  shows "(fromLonLat this (Val olon, Val olat) = (Val 0, Val 0))
     = (\<exists>\<theta> r1 r2. this_angle this = Val \<theta> \<and> this_r1 this = Val r1
          \<and> this_r2OverCosOriginLatInRadians this = Val r2)"
  by (cases "this_angle this"; cases "this_r1 this";
      cases "this_r2OverCosOriginLatInRadians this")
    (simp_all add: fromLonLat_def assms Coordinate_rotate_def Let_def minus_number_def)

text \<open>
  Claim C3, amended. For every object that the constructor returns for a finite origin,
  whatever the convention, the angle and the ellipsoid, the origin is mapped to \<open>(0, 0)\<close>
  if and only if the object holds finite numbers in its angle and in its two cached
  coefficients \<open>r1\<close> and \<open>r2OverCosOriginLatInRadians\<close>. No step of this depends on
  rounding: the condition is on what the object holds, so that a coefficient that is
  \<open>NaN\<close> or infinite is excluded however it came about. The condition is met, and the
  origin mapped to \<open>(0, 0)\<close>, for the default ellipsoid \<open>WGS84\<close> at every finite origin,
  under either convention and for every angle of at most a full turn either way (the
  default angle is 0).
\<close>

theorem fromLonLat_origin:
  "(new_FlatEarthCoordinateSystem (Val olon, Val olat) angle_arg type_arg ellipsoid_arg = Inr this
     \<longrightarrow> (fromLonLat this (Val olon, Val olat) = (Val 0, Val 0))
          = (\<exists>\<theta> r1 r2. this_angle this = Val \<theta> \<and> this_r1 this = Val r1
               \<and> this_r2OverCosOriginLatInRadians this = Val r2))
   \<and> ((t = ''neu'' \<or> t = ''nwu'') \<and> \<bar>ang\<bar> \<le> 360 \<longrightarrow>
        (\<exists>this. new_FlatEarthCoordinateSystem (Val olon, Val olat) (Some (Val ang)) (Some t) None
              = Inr this
           \<and> fromLonLat this (Val olon, Val olat) = (Val 0, Val 0)))"
proof (intro conjI impI)
  assume new: "new_FlatEarthCoordinateSystem (Val olon, Val olat) angle_arg type_arg
      ellipsoid_arg = Inr this"
  have o: "this_origin this = (Val olon, Val olat)" and k: "this_piOver180 this = Val (pi / 180)"
    using new by (rule constructed_fields)+
  have "this_yMul this = (if this_type this = ''neu'' then Val 1 else Val (- 1))"
    using new by (rule constructed_fields)
  then have ym: "this_yMul this = Val (if this_type this = ''neu'' then 1 else - 1)"
    by simp
  show "(fromLonLat this (Val olon, Val olat) = (Val 0, Val 0))
      = (\<exists>\<theta> r1 r2. this_angle this = Val \<theta> \<and> this_r1 this = Val r1
           \<and> this_r2OverCosOriginLatInRadians this = Val r2)"
    using o k ym by (rule origin_image)
next
  assume "(t = ''neu'' \<or> t = ''nwu'') \<and> \<bar>ang\<bar> \<le> 360"
  then have t: "t = ''neu'' \<or> t = ''nwu''"
    by simp
  let ?cs = "\<lparr> this_origin = (Val olon, Val olat),
            this_angle = Val (ang * pi / 180),
            this_ellipsoid = WGS84,
            this_type = t,
            this_piOver180 = Val (pi / 180),
            this_r1 = Val (spec_r1 6378137 WGS84_e2 olat),
            this_r2OverCosOriginLatInRadians = Val (spec_r2_over_cos 6378137 WGS84_e2 olat),
            this_yMul = Val (if t = ''neu'' then 1 else - 1) \<rparr>"
  have "new_FlatEarthCoordinateSystem (Val olon, Val olat) (Some (Val ang)) (Some t) None
      = Inr ?cs"
    unfolding new_FlatEarthCoordinateSystem_defaults using t by (rule WGS84_system)
  moreover have "fromLonLat ?cs (Val olon, Val olat) = (Val 0, Val 0)"
    by (simp add: fromLonLat_finite [where olon = olon and olat = olat and \<theta> = "ang * pi / 180"
          and k = "pi / 180" and ?r1.0 = "spec_r1 6378137 WGS84_e2 olat"
          and ?r2.0 = "spec_r2_over_cos 6378137 WGS84_e2 olat"
          and ym = "if t = ''neu'' then 1 else - 1"])
  ultimately show "\<exists>this. new_FlatEarthCoordinateSystem (Val olon, Val olat) (Some (Val ang))
        (Some t) None = Inr this \<and> fromLonLat this (Val olon, Val olat) = (Val 0, Val 0)"
    by blast
qed

theorem fromLonLat_origin_witness:
  "new_FlatEarthCoordinateSystem (Val 19, Val 47) (Some (Val 30)) (Some ''nwu'') (Some WGS84)
     = Inr \<lparr> this_origin = (Val 19, Val 47),
             this_angle = Val (30 * pi / 180),
             this_ellipsoid = WGS84,
             this_type = ''nwu'',
             this_piOver180 = Val (pi / 180),
             this_r1 = Val (spec_r1 6378137 WGS84_e2 47),
             this_r2OverCosOriginLatInRadians = Val (spec_r2_over_cos 6378137 WGS84_e2 47),
             this_yMul = Val (- 1) \<rparr>
   \<and> (\<exists>\<theta> r1 r2. this_angle \<lparr> this_origin = (Val 19, Val 47),
             this_angle = Val (30 * pi / 180),
             this_ellipsoid = WGS84,
             this_type = ''nwu'',
             this_piOver180 = Val (pi / 180),
             this_r1 = Val (spec_r1 6378137 WGS84_e2 47),
             this_r2OverCosOriginLatInRadians = Val (spec_r2_over_cos 6378137 WGS84_e2 47),
             this_yMul = Val (- 1) \<rparr> = Val \<theta> \<and> this_r1 \<lparr> this_origin = (Val 19, Val 47),
             this_angle = Val (30 * pi / 180),
             this_ellipsoid = WGS84,
             this_type = ''nwu'',
             this_piOver180 = Val (pi / 180),
             this_r1 = Val (spec_r1 6378137 WGS84_e2 47),
             this_r2OverCosOriginLatInRadians = Val (spec_r2_over_cos 6378137 WGS84_e2 47),
             this_yMul = Val (- 1) \<rparr> = Val r1
         \<and> this_r2OverCosOriginLatInRadians \<lparr> this_origin = (Val 19, Val 47),
             this_angle = Val (30 * pi / 180),
             this_ellipsoid = WGS84,
             this_type = ''nwu'',
             this_piOver180 = Val (pi / 180),
             this_r1 = Val (spec_r1 6378137 WGS84_e2 47),
             this_r2OverCosOriginLatInRadians = Val (spec_r2_over_cos 6378137 WGS84_e2 47),
             this_yMul = Val (- 1) \<rparr> = Val r2)
   \<and> fromLonLat \<lparr> this_origin = (Val 19, Val 47),
             this_angle = Val (30 * pi / 180),
             this_ellipsoid = WGS84,
             this_type = ''nwu'',
             this_piOver180 = Val (pi / 180),
             this_r1 = Val (spec_r1 6378137 WGS84_e2 47),
             this_r2OverCosOriginLatInRadians = Val (spec_r2_over_cos 6378137 WGS84_e2 47),
             this_yMul = Val (- 1) \<rparr> (Val 19, Val 47) = (Val 0, Val 0)
   \<and> (''nwu'' = ''neu'' \<or> ''nwu'' = ''nwu'') \<and> \<bar>30 :: real\<bar> \<le> 360
   \<and> (\<exists>this. new_FlatEarthCoordinateSystem (Val 19, Val 47) (Some (Val 30)) (Some ''nwu'') None
            = Inr this
         \<and> fromLonLat this (Val 19, Val 47) = (Val 0, Val 0))"
proof -
  let ?cs = "\<lparr> this_origin = (Val 19, Val 47),
             this_angle = Val (30 * pi / 180),
             this_ellipsoid = WGS84,
             this_type = ''nwu'',
             this_piOver180 = Val (pi / 180),
             this_r1 = Val (spec_r1 6378137 WGS84_e2 47),
             this_r2OverCosOriginLatInRadians = Val (spec_r2_over_cos 6378137 WGS84_e2 47),
             this_yMul = Val (- 1) \<rparr>"
  have "this_angle ?cs = Val (30 * pi / 180) \<and> this_r1 ?cs = Val (spec_r1 6378137 WGS84_e2 47)
      \<and> this_r2OverCosOriginLatInRadians ?cs = Val (spec_r2_over_cos 6378137 WGS84_e2 47)"
    by simp
  then have finite: "\<exists>\<theta> r1 r2. this_angle ?cs = Val \<theta> \<and> this_r1 ?cs = Val r1
      \<and> this_r2OverCosOriginLatInRadians ?cs = Val r2"
    by blast
  have new: "new_FlatEarthCoordinateSystem (Val 19, Val 47) (Some (Val 30)) (Some ''nwu'')
      (Some WGS84) = Inr ?cs"
    using WGS84_system [where t = "''nwu''" and olon = 19 and olat = 47 and ang = 30] by simp
  show ?thesis
    using fromLonLat_origin [where olon = 19 and olat = 47 and angle_arg = "Some (Val 30)"
        and type_arg = "Some ''nwu''" and ellipsoid_arg = "Some WGS84" and t = "''nwu''"
        and ang = 30 and this = ?cs] new finite
    by (simp only: simp_thms abs_numeral numeral_le_iff semiring_norm)
qed

section \<open>The axis convention\<close>

text \<open>
  Claim C8. Take the two objects constructed for the same origin and ellipsoid with the
  angle 0, one under \<open>neu\<close> and one under \<open>nwu\<close>, and the same input. Whenever the pair
  \<open>(n, e)\<close> that \<open>fromLonLat\<close> builds before it rotates (the north and the east term)
  consists of finite numbers, the conversion under \<open>neu\<close> returns \<open>(n, e)\<close> and the
  conversion under \<open>nwu\<close> returns \<open>(n, - e)\<close>: the second components are a finite number
  and its negation, the first components agree. With the angle 0 the rotation multiplies
  by 1 and adds zero, so no step of this depends on rounding. In particular, over
  \<open>WGS84\<close>, for an origin and an input in the range of longitudes and latitudes (the
  origin off the poles), both constructions succeed and the second components are
  \<open>(lon - lon\<^sub>0) (\<pi>/180) r2_over_cos\<close> under \<open>neu\<close> and its negation under \<open>nwu\<close>.
\<close>

theorem axis_convention_sign:
  "(new_FlatEarthCoordinateSystem origin (Some (Val 0)) (Some ''neu'') ellipsoid_arg = Inr neu
      \<and> new_FlatEarthCoordinateSystem origin (Some (Val 0)) (Some ''nwu'') ellipsoid_arg = Inr nwu
      \<and> (snd coords - snd origin) * this_piOver180 neu * this_r1 neu = Val n
      \<and> (fst coords - fst origin) * this_piOver180 neu * this_r2OverCosOriginLatInRadians neu
          = Val e
     \<longrightarrow> fromLonLat neu coords = (Val n, Val e) \<and> fromLonLat nwu coords = (Val n, Val (- e)))
   \<and> (\<bar>olon\<bar> \<le> 180 \<and> \<bar>olat\<bar> < 90 \<and> \<bar>lon\<bar> \<le> 180 \<and> \<bar>lat\<bar> \<le> 90 \<longrightarrow>
        (\<exists>neu nwu.
           new_FlatEarthCoordinateSystem (Val olon, Val olat) (Some (Val 0)) (Some ''neu'') None
             = Inr neu
         \<and> new_FlatEarthCoordinateSystem (Val olon, Val olat) (Some (Val 0)) (Some ''nwu'') None
             = Inr nwu
         \<and> snd (fromLonLat neu (Val lon, Val lat))
             = Val ((lon - olon) * (pi / 180) * spec_r2_over_cos 6378137 WGS84_e2 olat)
         \<and> snd (fromLonLat nwu (Val lon, Val lat))
             = Val (- ((lon - olon) * (pi / 180) * spec_r2_over_cos 6378137 WGS84_e2 olat))))"
proof (intro conjI impI)
  assume "new_FlatEarthCoordinateSystem origin (Some (Val 0)) (Some ''neu'') ellipsoid_arg
        = Inr neu
      \<and> new_FlatEarthCoordinateSystem origin (Some (Val 0)) (Some ''nwu'') ellipsoid_arg = Inr nwu
      \<and> (snd coords - snd origin) * this_piOver180 neu * this_r1 neu = Val n
      \<and> (fst coords - fst origin) * this_piOver180 neu * this_r2OverCosOriginLatInRadians neu
          = Val e"
  then have neu: "new_FlatEarthCoordinateSystem origin (Some (Val 0)) (Some ''neu'') ellipsoid_arg
        = Inr neu"
    and nwu: "new_FlatEarthCoordinateSystem origin (Some (Val 0)) (Some ''nwu'') ellipsoid_arg
        = Inr nwu"
    and n: "(snd coords - snd origin) * this_piOver180 neu * this_r1 neu = Val n"
    and e: "(fst coords - fst origin) * this_piOver180 neu * this_r2OverCosOriginLatInRadians neu
        = Val e"
    by simp_all
  have same: "this_r1 nwu = this_r1 neu"
      "this_r2OverCosOriginLatInRadians nwu = this_r2OverCosOriginLatInRadians neu"
    using neu nwu by (rule constructed_coefficients)+
  have f_neu: "this_origin neu = origin" "this_angle neu = Val 0"
      "this_yMul neu = Val 1"
    using constructed_fields [OF neu] by (simp_all add: Math_PI_def)
  have f_nwu: "this_origin nwu = origin" "this_angle nwu = Val 0"
      "this_piOver180 nwu = this_piOver180 neu" "this_yMul nwu = Val (- 1)"
    using constructed_fields [OF nwu] constructed_fields(3) [OF neu] by (simp_all add: Math_PI_def)
  show "fromLonLat neu coords = (Val n, Val e)"
    by (simp add: fromLonLat_def f_neu n e Coordinate_rotate_Val)
  show "fromLonLat nwu coords = (Val n, Val (- e))"
    by (simp add: fromLonLat_def f_nwu same n e Coordinate_rotate_Val)
next
  let ?cs = "\<lambda>t. \<lparr> this_origin = (Val olon, Val olat),
            this_angle = Val (0 * pi / 180),
            this_ellipsoid = WGS84,
            this_type = t,
            this_piOver180 = Val (pi / 180),
            this_r1 = Val (spec_r1 6378137 WGS84_e2 olat),
            this_r2OverCosOriginLatInRadians = Val (spec_r2_over_cos 6378137 WGS84_e2 olat),
            this_yMul = Val (if t = ''neu'' then 1 else - 1) \<rparr>"
  have "new_FlatEarthCoordinateSystem (Val olon, Val olat) (Some (Val 0)) (Some ''neu'') None
      = Inr (?cs ''neu'')"
    unfolding new_FlatEarthCoordinateSystem_defaults by (rule WGS84_system) simp
  moreover have "new_FlatEarthCoordinateSystem (Val olon, Val olat) (Some (Val 0)) (Some ''nwu'') None
      = Inr (?cs ''nwu'')"
    unfolding new_FlatEarthCoordinateSystem_defaults by (rule WGS84_system) simp
  moreover have "snd (fromLonLat (?cs ''neu'') (Val lon, Val lat))
      = Val ((lon - olon) * (pi / 180) * spec_r2_over_cos 6378137 WGS84_e2 olat)"
    by (simp add: fromLonLat_finite [where olon = olon and olat = olat and \<theta> = "0 * pi / 180"
          and k = "pi / 180" and ?r1.0 = "spec_r1 6378137 WGS84_e2 olat"
          and ?r2.0 = "spec_r2_over_cos 6378137 WGS84_e2 olat" and ym = 1])
  moreover have "snd (fromLonLat (?cs ''nwu'') (Val lon, Val lat))
      = Val (- ((lon - olon) * (pi / 180) * spec_r2_over_cos 6378137 WGS84_e2 olat))"
    by (simp add: fromLonLat_finite [where olon = olon and olat = olat and \<theta> = "0 * pi / 180"
          and k = "pi / 180" and ?r1.0 = "spec_r1 6378137 WGS84_e2 olat"
          and ?r2.0 = "spec_r2_over_cos 6378137 WGS84_e2 olat" and ym = "- 1"])
  ultimately show "\<exists>neu nwu.
           new_FlatEarthCoordinateSystem (Val olon, Val olat) (Some (Val 0)) (Some ''neu'') None
             = Inr neu
         \<and> new_FlatEarthCoordinateSystem (Val olon, Val olat) (Some (Val 0)) (Some ''nwu'') None
             = Inr nwu
         \<and> snd (fromLonLat neu (Val lon, Val lat))
             = Val ((lon - olon) * (pi / 180) * spec_r2_over_cos 6378137 WGS84_e2 olat)
         \<and> snd (fromLonLat nwu (Val lon, Val lat))
             = Val (- ((lon - olon) * (pi / 180) * spec_r2_over_cos 6378137 WGS84_e2 olat))"
    by blast
qed

theorem axis_convention_sign_witness:
  "(let neu = \<lparr> this_origin = (Val 19, Val 47),
             this_angle = Val (0 * pi / 180),
             this_ellipsoid = WGS84,
             this_type = ''neu'',
             this_piOver180 = Val (pi / 180),
             this_r1 = Val (spec_r1 6378137 WGS84_e2 47),
             this_r2OverCosOriginLatInRadians = Val (spec_r2_over_cos 6378137 WGS84_e2 47),
             this_yMul = Val 1 \<rparr>;
        nwu = \<lparr> this_origin = (Val 19, Val 47),
             this_angle = Val (0 * pi / 180),
             this_ellipsoid = WGS84,
             this_type = ''nwu'',
             this_piOver180 = Val (pi / 180),
             this_r1 = Val (spec_r1 6378137 WGS84_e2 47),
             this_r2OverCosOriginLatInRadians = Val (spec_r2_over_cos 6378137 WGS84_e2 47),
             this_yMul = Val (- 1) \<rparr>;
        n = 1 * (pi / 180) * spec_r1 6378137 WGS84_e2 47;
        e = 1 * (pi / 180) * spec_r2_over_cos 6378137 WGS84_e2 47
    in new_FlatEarthCoordinateSystem (Val 19, Val 47) (Some (Val 0)) (Some ''neu'') (Some WGS84)
         = Inr neu
     \<and> new_FlatEarthCoordinateSystem (Val 19, Val 47) (Some (Val 0)) (Some ''nwu'') (Some WGS84)
         = Inr nwu
     \<and> (snd (Val 20, Val 48) - snd (Val 19, Val 47)) * this_piOver180 neu * this_r1 neu = Val n
     \<and> (fst (Val 20, Val 48) - fst (Val 19, Val 47)) * this_piOver180 neu
          * this_r2OverCosOriginLatInRadians neu = Val e
     \<and> fromLonLat neu (Val 20, Val 48) = (Val n, Val e)
     \<and> fromLonLat nwu (Val 20, Val 48) = (Val n, Val (- e)))
   \<and> \<bar>19 :: real\<bar> \<le> 180 \<and> \<bar>47 :: real\<bar> < 90 \<and> \<bar>20 :: real\<bar> \<le> 180 \<and> \<bar>48 :: real\<bar> \<le> 90
   \<and> (\<exists>neu nwu.
         new_FlatEarthCoordinateSystem (Val 19, Val 47) (Some (Val 0)) (Some ''neu'') None = Inr neu
       \<and> new_FlatEarthCoordinateSystem (Val 19, Val 47) (Some (Val 0)) (Some ''nwu'') None = Inr nwu
       \<and> snd (fromLonLat neu (Val 20, Val 48))
           = Val ((20 - 19) * (pi / 180) * spec_r2_over_cos 6378137 WGS84_e2 47)
       \<and> snd (fromLonLat nwu (Val 20, Val 48))
           = Val (- ((20 - 19) * (pi / 180) * spec_r2_over_cos 6378137 WGS84_e2 47)))"
  using axis_convention_sign [where origin = "(Val 19, Val 47)" and coords = "(Val 20, Val 48)"
      and ellipsoid_arg = "Some WGS84"
      and neu = "\<lparr> this_origin = (Val 19, Val 47),
             this_angle = Val (0 * pi / 180),
             this_ellipsoid = WGS84,
             this_type = ''neu'',
             this_piOver180 = Val (pi / 180),
             this_r1 = Val (spec_r1 6378137 WGS84_e2 47),
             this_r2OverCosOriginLatInRadians = Val (spec_r2_over_cos 6378137 WGS84_e2 47),
             this_yMul = Val 1 \<rparr>"
      and nwu = "\<lparr> this_origin = (Val 19, Val 47),
             this_angle = Val (0 * pi / 180),
             this_ellipsoid = WGS84,
             this_type = ''nwu'',
             this_piOver180 = Val (pi / 180),
             this_r1 = Val (spec_r1 6378137 WGS84_e2 47),
             this_r2OverCosOriginLatInRadians = Val (spec_r2_over_cos 6378137 WGS84_e2 47),
             this_yMul = Val (- 1) \<rparr>"
      and n = "1 * (pi / 180) * spec_r1 6378137 WGS84_e2 47"
      and e = "1 * (pi / 180) * spec_r2_over_cos 6378137 WGS84_e2 47"
      and olon = 19 and olat = 47 and lon = 20 and lat = 48]
    WGS84_system [where t = "''neu''" and olon = 19 and olat = 47 and ang = 0]
    WGS84_system [where t = "''nwu''" and olon = 19 and olat = 47 and ang = 0]
  by (simp add: Let_def)

section \<open>Construction and failure\<close>

lemma conversions_finite:
  assumes "t = ''neu'' \<or> t = ''nwu''" and "physically_valid ell"
    and "new_FlatEarthCoordinateSystem (Val olon, Val olat) (Some (Val ang)) (Some t) (Some ell)
          = Inr this"
  shows "\<exists>u v. fromLonLat this (Val lon, Val lat) = (Val u, Val v)"
    and "\<exists>l v. toLonLat this (Val x, Val y) = (l, Val v)
          \<and> (cos (olat * (pi / 180)) \<noteq> 0 \<longrightarrow> (\<exists>u. l = Val u))"
proof -
  from assms(2) obtain a q where ell: "semiMajorAxis ell = Val a" "eccentricitySquared ell = Val q"
    and a: "0 < a" and q: "q < 1"
    by (rule physically_validD)
  let ?cs = "\<lparr> this_origin = (Val olon, Val olat),
            this_angle = Val (ang * pi / 180),
            this_ellipsoid = ell,
            this_type = t,
            this_piOver180 = Val (pi / 180),
            this_r1 = Val (spec_r1 a q olat),
            this_r2OverCosOriginLatInRadians = Val (spec_r2_over_cos a q olat),
            this_yMul = Val (if t = ''neu'' then 1 else - 1) \<rparr>"
  have "new_FlatEarthCoordinateSystem (Val olon, Val olat) (Some (Val ang)) (Some t) (Some ell)
      = Inr ?cs"
    using assms(1) ell spec_x_positive [OF q] by (rule new_FlatEarthCoordinateSystem_finite)
  with assms(3) have eq: "this = ?cs" by simp
  have r1: "spec_r1 a q olat \<noteq> 0"
    using a q by (simp add: spec_r1_nonzero)
  show "\<exists>u v. fromLonLat this (Val lon, Val lat) = (Val u, Val v)"
    unfolding eq
    by (simp add: fromLonLat_finite [where olon = olon and olat = olat and \<theta> = "ang * pi / 180"
          and k = "pi / 180" and ?r1.0 = "spec_r1 a q olat"
          and ?r2.0 = "spec_r2_over_cos a q olat" and ym = "if t = ''neu'' then 1 else - 1"])
  have r2: "spec_r2_over_cos a q olat \<noteq> 0" if "cos (olat * (pi / 180)) \<noteq> 0"
    using that a spec_x_positive [OF q, of olat] by (simp add: spec_r2_over_cos_def)
  show "\<exists>l v. toLonLat this (Val x, Val y) = (l, Val v)
          \<and> (cos (olat * (pi / 180)) \<noteq> 0 \<longrightarrow> (\<exists>u. l = Val u))"
    unfolding eq using r1 r2
    by (cases "spec_r2_over_cos a q olat = 0")
       (auto simp: toLonLat_def Coordinate_rotate_Val)
qed

lemma construction_outcome:
  "new_FlatEarthCoordinateSystem origin angle (Some t) ell =
    (if t \<noteq> ''neu'' \<and> t \<noteq> ''nwu''
     then Inl (Error (''unknown coordinate system type: '' @ t))
     else Inr (projr (new_FlatEarthCoordinateSystem origin angle (Some t) ell)))"
  by (simp add: new_FlatEarthCoordinateSystem_def Let_def)

text \<open>
  Claim C4. The construction fails exactly when the convention is neither \<open>neu\<close> nor
  \<open>nwu\<close>, and the error message then ends with the rejected value; with the convention
  left out it succeeds, and \<open>xyz\<close> is rejected. The two conversions have no error result
  at all: the source has no \<open>throw\<close> on their paths, and arithmetic on numbers never
  throws. Under a physically valid ellipsoid \<open>fromLonLat\<close> maps finite input to finite
  numbers, and so does \<open>toLonLat\<close>, except that at a pole (where the cosine of the origin
  latitude is zero) its longitude is the result of a division by zero: a non-finite
  number, not an error.
\<close>

theorem construction_fails_iff:
  "isl (new_FlatEarthCoordinateSystem origin angle (Some t) ell)
      = (t \<noteq> ''neu'' \<and> t \<noteq> ''nwu'')
   \<and> (isl (new_FlatEarthCoordinateSystem origin angle (Some t) ell) \<longrightarrow>
        new_FlatEarthCoordinateSystem origin angle (Some t) ell
          = Inl (Error (''unknown coordinate system type: '' @ t)))
   \<and> \<not> isl (new_FlatEarthCoordinateSystem origin angle None ell)
   \<and> new_FlatEarthCoordinateSystem origin angle (Some ''xyz'') ell
        = Inl (Error ''unknown coordinate system type: xyz'')
   \<and> (physically_valid e \<longrightarrow>
        new_FlatEarthCoordinateSystem (Val olon, Val olat) (Some (Val ang)) (Some t) (Some e)
          = Inr this \<longrightarrow>
        (\<exists>u v. fromLonLat this (Val lon, Val lat) = (Val u, Val v))
        \<and> (\<exists>l v. toLonLat this (Val x, Val y) = (l, Val v)
              \<and> (cos (olat * (pi / 180)) \<noteq> 0 \<longrightarrow> (\<exists>u. l = Val u))))"
proof (intro conjI impI)
  show iff: "isl (new_FlatEarthCoordinateSystem origin angle (Some t) ell)
      = (t \<noteq> ''neu'' \<and> t \<noteq> ''nwu'')"
    by (subst construction_outcome) simp
  show "new_FlatEarthCoordinateSystem origin angle (Some t) ell
          = Inl (Error (''unknown coordinate system type: '' @ t))"
    if "isl (new_FlatEarthCoordinateSystem origin angle (Some t) ell)"
    using that unfolding iff by (subst construction_outcome) simp
  show "\<not> isl (new_FlatEarthCoordinateSystem origin angle None ell)"
    by (simp add: new_FlatEarthCoordinateSystem_def Let_def)
  show "new_FlatEarthCoordinateSystem origin angle (Some ''xyz'') ell
        = Inl (Error ''unknown coordinate system type: xyz'')"
    by (subst construction_outcome) simp
next
  assume e: "physically_valid e"
    and new: "new_FlatEarthCoordinateSystem (Val olon, Val olat) (Some (Val ang)) (Some t)
      (Some e) = Inr this"
  have "\<not> isl (new_FlatEarthCoordinateSystem (Val olon, Val olat) (Some (Val ang)) (Some t)
      (Some e))"
    by (simp add: new)
  then have t: "t = ''neu'' \<or> t = ''nwu''"
    by (subst (asm) construction_outcome) (simp split: if_splits)
  show "\<exists>u v. fromLonLat this (Val lon, Val lat) = (Val u, Val v)"
    using t e new by (rule conversions_finite(1))
  show "\<exists>l v. toLonLat this (Val x, Val y) = (l, Val v)
              \<and> (cos (olat * (pi / 180)) \<noteq> 0 \<longrightarrow> (\<exists>u. l = Val u))"
    using t e new by (rule conversions_finite(2))
qed

lemma construction_succeeds:
  "t = ''neu'' \<or> t = ''nwu'' \<Longrightarrow>
    new_FlatEarthCoordinateSystem origin angle (Some t) ell
      = Inr (projr (new_FlatEarthCoordinateSystem origin angle (Some t) ell))"
  by (subst construction_outcome) auto

theorem construction_fails_iff_witness:
  "isl (new_FlatEarthCoordinateSystem (Val 19, Val 47) (Some (Val 0)) (Some ''xyz'') (Some WGS84))
   \<and> new_FlatEarthCoordinateSystem (Val 19, Val 47) (Some (Val 0)) (Some ''xyz'') (Some WGS84)
        = Inl (Error ''unknown coordinate system type: xyz'')
   \<and> \<not> isl (new_FlatEarthCoordinateSystem (Val 19, Val 47) (Some (Val 0)) (Some ''nwu'')
        (Some WGS84))
   \<and> physically_valid WGS84
   \<and> (\<exists>u v. fromLonLat
          (projr (new_FlatEarthCoordinateSystem (Val 19, Val 47) (Some (Val 0)) (Some ''nwu'')
            (Some WGS84)))
          (Val 20, Val 48) = (Val u, Val v))
   \<and> cos (47 * (pi / 180)) \<noteq> 0
   \<and> (\<exists>u v. toLonLat
          (projr (new_FlatEarthCoordinateSystem (Val 19, Val 47) (Some (Val 0)) (Some ''nwu'')
            (Some WGS84)))
          (Val 100, Val 200) = (Val u, Val v))"
proof -
  have new: "new_FlatEarthCoordinateSystem (Val 19, Val 47) (Some (Val 0)) (Some ''nwu'')
        (Some WGS84)
      = Inr (projr (new_FlatEarthCoordinateSystem (Val 19, Val 47) (Some (Val 0))
          (Some ''nwu'') (Some WGS84)))"
    by (rule construction_succeeds) simp
  have c: "cos (47 * (pi / 180)) \<noteq> 0"
    by (rule cos_degrees_nonzero) simp
  show ?thesis
    using construction_fails_iff [where t = "''xyz''" and origin = "(Val 19, Val 47)"
        and angle = "Some (Val 0)" and ell = "Some WGS84"]
      construction_fails_iff [where t = "''nwu''" and origin = "(Val 19, Val 47)"
        and angle = "Some (Val 0)" and ell = "Some WGS84" and e = WGS84 and olon = 19
        and olat = 47 and ang = 0 and lon = 20 and lat = 48 and x = 100 and y = 200
        and this = "projr (new_FlatEarthCoordinateSystem (Val 19, Val 47) (Some (Val 0))
          (Some ''nwu'') (Some WGS84))"]
      new c physically_valid_WGS84
    by auto
qed

section \<open>The ellipsoid factory\<close>

text \<open>
  Claim C5. For a positive semi-major axis \<open>a\<close> and a positive inverse flattening \<open>i\<close> the
  factory returns the object with \<open>flattening = 1 / i\<close>,
  \<open>eccentricitySquared = flattening (2 - flattening)\<close>,
  \<open>eccentricity = Math.sqrt eccentricitySquared\<close> (the real square root from \<open>i = 1/2\<close>
  on, where the squared eccentricity is not negative),
  \<open>semiMinorAxis = a (1 - flattening)\<close> and \<open>meanRadius = (semiMinorAxis + 2 a) / 3\<close>.
  For the inverse flattening \<open>+\<infinity>\<close> the flattening is 0 and the ellipsoid is the sphere
  of radius \<open>a\<close>. \<open>WGS84\<close> is the factory applied to 6378137 and 298.257223563.
\<close>

theorem makeEllipsoidModel_fields:
  assumes "0 < a"
  shows "(0 < i \<longrightarrow>
          (let m = makeEllipsoidModel (Val a) (Val i); f = 1 / i
           in inverseFlattening m = Val i
            \<and> semiMajorAxis m = Val a
            \<and> flattening m = Val f
            \<and> eccentricitySquared m = Val (f * (2 - f))
            \<and> eccentricity m = Math_sqrt (eccentricitySquared m)
            \<and> (1 / 2 \<le> i \<longrightarrow> eccentricity m = Val (sqrt (f * (2 - f))))
            \<and> semiMinorAxis m = Val (a * (1 - f))
            \<and> meanRadius m = Val ((a * (1 - f) + 2 * a) / 3)))
       \<and> (let m = makeEllipsoidModel (Val a) PInf
          in inverseFlattening m = PInf
           \<and> semiMajorAxis m = Val a
           \<and> flattening m = Val 0
           \<and> eccentricitySquared m = Val 0
           \<and> eccentricity m = Val 0
           \<and> semiMinorAxis m = Val a
           \<and> meanRadius m = Val a)
       \<and> WGS84 = makeEllipsoidModel (Val 6378137) (Val 298.257223563)"
proof (intro conjI impI)
  assume i: "0 < i"
  have nonneg: "0 \<le> 1 / i * (2 - 1 / i)" if "1 / 2 \<le> i"
  proof -
    have "1 / i \<le> 2"
      using that i by (simp add: field_simps)
    then show ?thesis
      using i by simp
  qed
  show "let m = makeEllipsoidModel (Val a) (Val i); f = 1 / i
           in inverseFlattening m = Val i
            \<and> semiMajorAxis m = Val a
            \<and> flattening m = Val f
            \<and> eccentricitySquared m = Val (f * (2 - f))
            \<and> eccentricity m = Math_sqrt (eccentricitySquared m)
            \<and> (1 / 2 \<le> i \<longrightarrow> eccentricity m = Val (sqrt (f * (2 - f))))
            \<and> semiMinorAxis m = Val (a * (1 - f))
            \<and> meanRadius m = Val ((a * (1 - f) + 2 * a) / 3)"
    unfolding Let_def
  proof (intro conjI impI)
    show "eccentricity (makeEllipsoidModel (Val a) (Val i)) = Val (sqrt (1 / i * (2 - 1 / i)))"
      if "1 / 2 \<le> i"
      using i nonneg [OF that] by (simp add: makeEllipsoidModel_def Let_def)
    show "meanRadius (makeEllipsoidModel (Val a) (Val i)) = Val ((a * (1 - 1 / i) + 2 * a) / 3)"
      using i by (simp add: makeEllipsoidModel_def Let_def mult.commute)
  qed (use i in \<open>simp_all add: makeEllipsoidModel_def Let_def\<close>)
next
  show "let m = makeEllipsoidModel (Val a) PInf
          in inverseFlattening m = PInf
           \<and> semiMajorAxis m = Val a
           \<and> flattening m = Val 0
           \<and> eccentricitySquared m = Val 0
           \<and> eccentricity m = Val 0
           \<and> semiMinorAxis m = Val a
           \<and> meanRadius m = Val a"
    by (simp add: makeEllipsoidModel_def Let_def)
next
  show "WGS84 = makeEllipsoidModel (Val 6378137) (Val 298.257223563)"
    by (rule WGS84_def)
qed

theorem makeEllipsoidModel_fields_witness:
  "(0 :: real) < 6378137 \<and> (0 :: real) < 298.257223563 \<and> (1 / 2 :: real) \<le> 298.257223563
   \<and> flattening WGS84 = Val (1 / 298.257223563)
   \<and> eccentricity WGS84 = Val (sqrt (1 / 298.257223563 * (2 - 1 / 298.257223563)))
   \<and> semiMinorAxis WGS84 = Val (6378137 * (1 - 1 / 298.257223563))"
  using makeEllipsoidModel_fields [where a = 6378137 and i = "298.257223563"]
  by (simp add: Let_def WGS84_def)

section \<open>Polar coordinates\<close>

subsection \<open>In exact arithmetic\<close>

lemma atan2_range: "- pi < atan2 y x \<and> atan2 y x \<le> pi"
proof -
  have b: "- (pi / 2) < arctan (y / x)" "arctan (y / x) < pi / 2"
    by (rule arctan_lbound, rule arctan_ubound)
  have neg: "arctan (y / x) \<le> 0" if "x < 0" "0 \<le> y"
  proof -
    have "y / x \<le> 0" using that by (simp add: divide_nonneg_neg)
    then show ?thesis using arctan_le_zero_iff by blast
  qed
  have pos: "0 < arctan (y / x)" if "x < 0" "y < 0"
  proof -
    have "0 < y / x" using that by (simp add: divide_neg_neg)
    then show ?thesis using zero_less_arctan_iff by blast
  qed
  show ?thesis
    unfolding atan2_def using b neg pos pi_gt_zero
    by (auto simp: not_less not_le)
qed

text \<open>
  Computed over the reals, \<open>toPolar\<close> returns the distance from the origin and an angle
  in \<open>[0, 360)\<close>: the angle is 0 when the distance is 0, and otherwise it is \<open>Math.atan2\<close>
  of the pair in degrees, plus 360 when negative. This is the range that the function
  aims at by adding 360 to the negative angles. The four values that the specification
  lists hold.
\<close>

lemma toPolar_exact:
  "(\<exists>d a. toPolar (Val x, Val y) = (Val d, Val a)
      \<and> d = sqrt (x * x + y * y)
      \<and> 0 \<le> a \<and> a < 360
      \<and> (d = 0 \<longrightarrow> a = 0)
      \<and> (0 < d \<longrightarrow>
           (\<exists>t. Math_atan2 (Val y) (Val x) = Val t
              \<and> a = (if t * 180 / pi < 0 then t * 180 / pi + 360 else t * 180 / pi))))
   \<and> toPolar (Val 0, Val 0) = (Val 0, Val 0)
   \<and> toPolar (Val 1, Val 0) = (Val 1, Val 0)
   \<and> toPolar (Val 0, Val 1) = (Val 1, Val 90)
   \<and> toPolar (Val (- 1), Val 0) = (Val 1, Val 180)"
proof (intro conjI)
  let ?d = "sqrt (x * x + y * y)"
  let ?t = "atan2 y x"
  let ?deg = "?t * 180 / pi"
  have d0: "0 \<le> ?d" by simp
  have lo: "- 180 < ?deg" and hi: "?deg \<le> 180"
    using atan2_range [of y x] pi_gt_zero by (simp_all add: field_simps)
  show "\<exists>d a. toPolar (Val x, Val y) = (Val d, Val a)
      \<and> d = sqrt (x * x + y * y)
      \<and> 0 \<le> a \<and> a < 360
      \<and> (d = 0 \<longrightarrow> a = 0)
      \<and> (0 < d \<longrightarrow>
           (\<exists>t. Math_atan2 (Val y) (Val x) = Val t
              \<and> a = (if t * 180 / pi < 0 then t * 180 / pi + 360 else t * 180 / pi)))"
  proof (cases "0 < ?d")
    case True
    have "toPolar (Val x, Val y) = (Val ?d, Val (if ?deg < 0 then ?deg + 360 else ?deg))"
      using True by (simp add: toPolar_def Math_PI_def Let_def)
    then show ?thesis
      using True lo hi by auto
  next
    case False
    then have z: "?d = 0" using d0 by linarith
    have "toPolar (Val x, Val y) = (Val 0, Val 0)"
      using z by (simp add: toPolar_def Let_def)
    then show ?thesis
      using z by simp
  qed
  show "toPolar (Val 0, Val 0) = (Val 0, Val 0)"
    by (simp add: toPolar_def Let_def)
  show "toPolar (Val 1, Val 0) = (Val 1, Val 0)"
    by (simp add: toPolar_def Math_PI_def atan2_def Let_def)
  show "toPolar (Val 0, Val 1) = (Val 1, Val 90)"
    by (simp add: toPolar_def Math_PI_def atan2_def Let_def)
  show "toPolar (Val (- 1), Val 0) = (Val 1, Val 180)"
    by (simp add: toPolar_def Math_PI_def atan2_def Let_def)
qed

subsection \<open>In double arithmetic\<close>

text \<open>
  Rounding to the nearest double: the rounded significand is within one half of the
  exact one, a real that is within less than one half of an integer significand is
  rounded to it, and above the smallest normal number the result is between half and
  twice the argument.
\<close>

lemma round_half_even_bounds:
  "v - 1 / 2 \<le> of_int (round_half_even v)" "of_int (round_half_even v) \<le> v + 1 / 2"
  unfolding round_half_even_def Let_def by (auto simp: not_less) linarith+

lemma round_half_even_unique:
  assumes "\<bar>v - of_int n\<bar> < 1 / 2"
  shows "round_half_even v = n"
proof -
  have "v - 1 / 2 \<le> of_int (round_half_even v)" "of_int (round_half_even v) \<le> v + 1 / 2"
    by (rule round_half_even_bounds)+
  then have "\<bar>real_of_int (round_half_even v) - of_int n\<bar> < 1"
    using assms by linarith
  then have "\<bar>round_half_even v - n\<bar> < 1"
    by (metis of_int_diff of_int_abs of_int_less_1_iff)
  then show ?thesis by linarith
qed

lemma ulp_normal:
  assumes "2 powr of_int k \<le> \<bar>x\<bar>" and "\<bar>x\<bar> < 2 powr of_int (k + 1)" and "- 1022 \<le> k"
  shows "ulp x = 2 powr of_int (k - 52)"
proof -
  have "(0 :: real) < 2 powr of_int k" by simp
  then have "0 < \<bar>x\<bar>" using assms(1) by linarith
  then have "\<lfloor>log 2 \<bar>x\<bar>\<rfloor> = k"
    using assms(1,2) by (simp add: floor_log_eq_powr_iff)
  then show ?thesis using assms(3) by (simp add: ulp_def max_def)
qed

lemma nearest_double_minus: "nearest_double (- x) = - nearest_double x"
  by (simp add: nearest_double_def ulp_def sgn_minus)

lemma nearest_double_unique:
  assumes "2 powr of_int k \<le> x" and "x < 2 powr of_int (k + 1)" and "- 1022 \<le> k"
    and "\<bar>x / 2 powr of_int (k - 52) - of_int n\<bar> < 1 / 2"
  shows "nearest_double x = of_int n * 2 powr of_int (k - 52)"
proof -
  have "(0 :: real) < 2 powr of_int k" by simp
  then have pos: "0 < x" using assms(1) by linarith
  have u: "ulp x = 2 powr of_int (k - 52)"
    using assms(1-3) pos by (intro ulp_normal) simp_all
  have "round_half_even (\<bar>x\<bar> / ulp x) = n"
    using assms(4) pos unfolding u by (intro round_half_even_unique) simp
  then show ?thesis
    using pos by (simp add: nearest_double_def u)
qed

lemma nearest_double_bounds:
  assumes "2 powr (- 1022) \<le> x"
  shows "x / 2 \<le> nearest_double x" "nearest_double x \<le> 2 * x"
proof -
  have "(0 :: real) < 2 powr (- 1022)" by simp
  then have pos: "0 < x" using assms by linarith
  define k where "k = \<lfloor>log 2 x\<rfloor>"
  have k: "2 powr of_int k \<le> x" "x < 2 powr of_int (k + 1)"
    using pos floor_log_eq_powr_iff [of x 2 k] by (simp_all add: k_def)
  have "log 2 (2 powr (- 1022)) \<le> log 2 x"
    using assms pos by (subst log_le_cancel_iff) simp_all
  then have "- 1022 \<le> log 2 x" by simp
  then have kl: "- 1022 \<le> k" unfolding k_def by (simp add: le_floor_iff)
  define u :: real where "u = 2 powr of_int (k - 52)"
  have u: "ulp x = u" "0 < u"
    using k kl pos by (simp_all add: u_def ulp_normal)
  define m where "m = x / u"
  have "2 powr (52 + (of_int k - 52)) = (2 :: real) powr 52 * 2 powr (of_int k - 52)"
    by (rule powr_add)
  then have "2 powr of_int k = 2 ^ 52 * u"
    unfolding u_def by simp
  then have "2 ^ 52 * u \<le> x" using k(1) by simp
  then have "2 ^ 52 \<le> m" unfolding m_def using u(2) by (simp add: pos_le_divide_eq)
  then have m1: "1 \<le> m" by simp
  have n: "m - 1 / 2 \<le> of_int (round_half_even m)" "of_int (round_half_even m) \<le> m + 1 / 2"
    by (rule round_half_even_bounds)+
  have nd: "nearest_double x = of_int (round_half_even m) * u"
    using pos by (simp add: nearest_double_def u m_def)
  have x: "m * u = x" unfolding m_def using u(2) by simp
  have "m / 2 * u \<le> of_int (round_half_even m) * u"
    using n(1) m1 u(2) by (intro mult_right_mono) simp_all
  moreover have "m / 2 * u = x / 2" using x by simp
  ultimately show "x / 2 \<le> nearest_double x" unfolding nd by simp
  have "of_int (round_half_even m) * u \<le> (2 * m) * u"
    using n(2) m1 u(2) by (intro mult_right_mono) simp_all
  moreover have "(2 * m) * u = 2 * x" using x by simp
  ultimately show "nearest_double x \<le> 2 * x" unfolding nd by simp
qed


lemma two_powr_neg: "(2 :: real) powr (- numeral n) = 1 / 2 ^ numeral n"
proof -
  have "(2 :: real) powr (- numeral n) = inverse (2 powr numeral n)"
    by (rule powr_minus)
  also have "(2 :: real) powr numeral n = 2 ^ numeral n"
    by (rule powr_numeral) simp
  finally show ?thesis by (simp only: inverse_eq_divide)
qed

lemma two_powr_int:
  "(2 :: real) powr of_int (8 - 52) = 1 / 2 ^ 44"
  "(2 :: real) powr of_int 0 = 1" "(2 :: real) powr of_int (0 + 1) = 2"
  "(2 :: real) powr of_int 8 = 256" "(2 :: real) powr of_int (8 + 1) = 512"
  "(2 :: real) powr of_int (0 - 52) = 1 / 2 ^ 52"
proof -
  have "(2 :: real) powr of_int (8 - 52) = 2 powr (- 44)" by simp
  then show "(2 :: real) powr of_int (8 - 52) = 1 / 2 ^ 44" by (simp only: two_powr_neg)
  have "(2 :: real) powr of_int (0 - 52) = 2 powr (- 52)" by simp
  then show "(2 :: real) powr of_int (0 - 52) = 1 / 2 ^ 52" by (simp only: two_powr_neg)
  show "(2 :: real) powr of_int 0 = 1" "(2 :: real) powr of_int (0 + 1) = 2" by simp_all
  have "(2 :: real) powr 8 = 2 ^ 8" "(2 :: real) powr 9 = 2 ^ 9"
    by (rule powr_numeral, simp)+
  then show "(2 :: real) powr of_int 8 = 256" "(2 :: real) powr of_int (8 + 1) = 512" by simp_all
qed

lemma two_powr_1022: "(2 :: real) powr (- 1022) = 1 / 2 ^ 1022"
  by (rule two_powr_neg)

lemma nearest_double_near_1:
  assumes "0 \<le> d" and "d \<le> 1 / 2 ^ 60"
  shows "nearest_double (1 + d) = 1"
proof -
  have "nearest_double (1 + d) = of_int (2 ^ 52) * 2 powr of_int (0 - 52)"
  proof (rule nearest_double_unique)
    show "2 powr of_int 0 \<le> 1 + d" using assms(1) by simp
    show "1 + d < 2 powr of_int (0 + 1)" using assms(2) by simp
    show "- 1022 \<le> (0 :: int)" by simp
    have "(1 + d) / 2 powr of_int (0 - 52) - of_int (2 ^ 52) = d * 2 ^ 52"
      unfolding two_powr_int by (simp add: algebra_simps)
    moreover have "0 \<le> d * 2 ^ 52" using assms(1) by simp
    moreover have "d * 2 ^ 52 \<le> 1 / 2 ^ 60 * 2 ^ 52"
      using assms(2) by (intro mult_right_mono) simp_all
    ultimately show "\<bar>(1 + d) / 2 powr of_int (0 - 52) - of_int (2 ^ 52)\<bar> < 1 / 2"
      by simp
  qed
  then show ?thesis unfolding two_powr_int by simp
qed

lemma nearest_double_near_360:
  assumes "- (1 / 2 ^ 46) \<le> t" and "t \<le> 0"
  shows "nearest_double (360 + t) = 360"
proof -
  have "nearest_double (360 + t) = of_int (360 * 2 ^ 44) * 2 powr of_int (8 - 52)"
  proof (rule nearest_double_unique)
    show "2 powr of_int 8 \<le> 360 + t" unfolding two_powr_int using assms(1) by simp
    show "360 + t < 2 powr of_int (8 + 1)" unfolding two_powr_int using assms(2) by simp
    show "- 1022 \<le> (8 :: int)" by simp
    have "(360 + t) / 2 powr of_int (8 - 52) - of_int (360 * 2 ^ 44) = t * 2 ^ 44"
      unfolding two_powr_int by (simp add: algebra_simps)
    moreover have "t * 2 ^ 44 \<le> 0" using assms(2) by (simp add: mult_nonpos_nonneg)
    moreover have "- (1 / 2 ^ 46) * 2 ^ 44 \<le> t * 2 ^ 44"
      using assms(1) by (intro mult_right_mono) simp_all
    ultimately show "\<bar>(360 + t) / 2 powr of_int (8 - 52) - of_int (360 * 2 ^ 44)\<bar> < 1 / 2"
      by simp
  qed
  then show ?thesis unfolding two_powr_int by simp
qed

lemma double_Val: "\<bar>nearest_double x\<bar> < 2 ^ 1024 \<Longrightarrow> double (Val x) = Val (nearest_double x)"
  by (auto simp: double.simps Let_def)

lemma double_positive:
  assumes "1 / 2 ^ 1022 \<le> x" and "x \<le> 2 ^ 1022"
  shows "\<exists>z. double (Val x) = Val z \<and> x / 2 \<le> z \<and> z \<le> 2 * x"
proof -
  have n: "2 powr (- 1022) \<le> x"
    unfolding two_powr_1022 by (rule assms(1))
  have b: "x / 2 \<le> nearest_double x" "nearest_double x \<le> 2 * x"
    using n by (rule nearest_double_bounds)+
  have "(0 :: real) < 2 powr (- 1022)" by simp
  then have "0 < x" using n by linarith
  moreover have "(2 :: real) * 2 ^ 1022 < 2 ^ 1024" by simp
  ultimately have "\<bar>nearest_double x\<bar> < 2 ^ 1024" using b assms(2) by linarith
  then show ?thesis using b by (simp add: double_Val)
qed

lemma double_negative:
  assumes "1 / 2 ^ 1022 \<le> - x" and "- x \<le> 2 ^ 1022"
  shows "\<exists>z. double (Val x) = Val z \<and> 2 * x \<le> z \<and> z \<le> x / 2"
proof -
  have n: "2 powr (- 1022) \<le> - x"
    unfolding two_powr_1022 by (rule assms(1))
  have b: "- x / 2 \<le> nearest_double (- x)" "nearest_double (- x) \<le> 2 * (- x)"
    using n by (rule nearest_double_bounds)+
  have m: "nearest_double (- x) = - nearest_double x"
    by (rule nearest_double_minus)
  have "(0 :: real) < 2 powr (- 1022)" by simp
  then have "0 < - x" using n by linarith
  moreover have "(2 :: real) * 2 ^ 1022 < 2 ^ 1024" by simp
  ultimately have "\<bar>nearest_double x\<bar> < 2 ^ 1024" using b m assms(2) by linarith
  moreover have "2 * x \<le> nearest_double x" "nearest_double x \<le> x / 2"
    using b m by linarith+
  ultimately show ?thesis by (simp add: double_Val)
qed

text \<open>
  For a small positive argument the arc tangent lies between half the argument and the
  argument.
\<close>

lemma arctan_small:
  assumes "0 < x" and "x \<le> 1"
  shows "x / 2 \<le> arctan x" "arctan x \<le> x"
proof -
  have "\<exists>z. 0 < z \<and> z < x \<and> arctan x - arctan 0 = (x - 0) * inverse (1 + z\<^sup>2)"
    using assms(1) by (intro MVT2) (auto intro: DERIV_arctan)
  then obtain z where z: "0 < z" "z < x" "arctan x = x * inverse (1 + z\<^sup>2)"
    by auto
  have "z\<^sup>2 \<le> 1"
    using z(1,2) assms(2) by (simp add: power_le_one)
  then have "inverse 2 \<le> inverse (1 + z\<^sup>2)" "inverse (1 + z\<^sup>2) \<le> inverse 1"
    by (intro le_imp_inverse_le; simp add: add_pos_nonneg)+
  then have "1 / 2 \<le> inverse (1 + z\<^sup>2)" "inverse (1 + z\<^sup>2) \<le> 1"
    by simp_all
  then have "x * (1 / 2) \<le> x * inverse (1 + z\<^sup>2)" "x * inverse (1 + z\<^sup>2) \<le> x * 1"
    using assms(1) by (simp_all only: mult_le_cancel_left_pos)
  then show "x / 2 \<le> arctan x" "arctan x \<le> x"
    using z(3) by simp_all
qed

lemma double_negative_range:
  assumes "a \<le> - x" and "- x \<le> b" and "1 / 2 ^ 1022 \<le> a" and "b \<le> 2 ^ 1022"
  shows "\<exists>z. double (Val x) = Val z \<and> a / 2 \<le> - z \<and> - z \<le> 2 * b"
proof -
  have "\<exists>z. double (Val x) = Val z \<and> 2 * x \<le> z \<and> z \<le> x / 2"
    using assms by (intro double_negative) linarith+
  then obtain z where "double (Val x) = Val z" "2 * x \<le> z" "z \<le> x / 2"
    by blast
  then show ?thesis using assms(1,2) by auto
qed

lemma double_1: "double (Val 1) = Val 1"
proof -
  have "nearest_double (1 + 0) = 1"
    by (rule nearest_double_near_1) simp_all
  then show ?thesis by (simp add: double_Val)
qed

lemma double_PI: "\<exists>p. double Math_PI = Val p \<and> 1 \<le> p \<and> p \<le> 8"
proof -
  have "\<exists>z. double (Val pi) = Val z \<and> pi / 2 \<le> z \<and> z \<le> 2 * pi"
  proof (rule double_positive)
    have "(1 :: real) / 2 ^ 1022 \<le> 2" by simp
    then show "1 / 2 ^ 1022 \<le> pi" using pi_ge_two by linarith
    have "(4 :: real) \<le> 2 ^ 1022" by simp
    then show "pi \<le> 2 ^ 1022" using pi_less_4 by linarith
  qed
  then show ?thesis
    unfolding Math_PI_def using pi_ge_two pi_less_4 by auto
qed

text \<open>
  A point just below the positive first axis: the angle that \<open>Math.atan2\<close> gives is
  negative and tiny, so \<open>360\<close> is added; the exact sum lies within a quarter of the
  spacing of the doubles below 360, and the double nearest to it is 360 itself.
\<close>

lemma toPolar_double_below_axis:
  assumes "1 / 2 ^ 500 \<le> - y" and "- y \<le> 1 / 2 ^ 60"
  shows "toPolar_double (Val 1, Val y) = (Val 1, Val 360)"
proof -
  let ?v = "- y"
  have v: "0 < ?v" "?v \<le> 1"
  proof -
    have "(0 :: real) < 1 / 2 ^ 500" "(1 :: real) / 2 ^ 60 \<le> 1" by simp_all
    then show "0 < ?v" "?v \<le> 1" using assms by linarith+
  qed
  txt \<open>The distance.\<close>
  have "1 / 2 ^ 500 * (1 / 2 ^ 500) \<le> ?v * ?v" "?v * ?v \<le> 1 / 2 ^ 60 * (1 / 2 ^ 60)"
    using assms v(1) by (intro mult_mono; simp)+
  then have sq: "1 / 2 ^ 1022 \<le> y * y" "y * y \<le> 1 / 2 ^ 120"
    by simp_all
  have "\<exists>s. double (Val (y * y)) = Val s \<and> y * y / 2 \<le> s \<and> s \<le> 2 * (y * y)"
    using sq by (intro double_positive) simp_all
  then obtain s where s: "double (Val (y * y)) = Val s" "0 \<le> s" "s \<le> 1 / 2 ^ 60"
    using sq by auto
  have "nearest_double (1 + s) = 1"
    using s(2,3) by (rule nearest_double_near_1)
  then have sum: "double (Val (1 + s)) = Val 1"
    by (simp add: double_Val)
  have dist: "double (Math_sqrt (double (double (Val 1 * Val 1) + double (Val y * Val y))))
      = Val 1"
    by (simp add: double_1 s(1) sum)
  txt \<open>The angle in degrees.\<close>
  have "arctan y = - arctan ?v" by (simp add: arctan_minus)
  moreover have "?v / 2 \<le> arctan ?v" "arctan ?v \<le> ?v"
    using v by (rule arctan_small)+
  ultimately have a: "1 / 2 ^ 501 \<le> - arctan y" "- arctan y \<le> 1 / 2 ^ 60"
    using assms by simp_all
  have "\<exists>z. double (Val (arctan y)) = Val z \<and> 1 / 2 ^ 501 / 2 \<le> - z \<and> - z \<le> 2 * (1 / 2 ^ 60)"
    using a by (rule double_negative_range) simp_all
  then obtain t0 where t0: "double (Val (arctan y)) = Val t0"
      "1 / 2 ^ 502 \<le> - t0" "- t0 \<le> 1 / 2 ^ 59"
    by auto
  have "1 / 2 ^ 502 \<le> - (t0 * 180)" "- (t0 * 180) \<le> 1 / 2 ^ 51"
    using t0(2,3) by simp_all
  then have "\<exists>z. double (Val (t0 * 180)) = Val z \<and> 1 / 2 ^ 502 / 2 \<le> - z \<and> - z \<le> 2 * (1 / 2 ^ 51)"
    by (rule double_negative_range) simp_all
  then obtain t1 where t1: "double (Val (t0 * 180)) = Val t1"
      "1 / 2 ^ 503 \<le> - t1" "- t1 \<le> 1 / 2 ^ 50"
    by auto
  obtain p where p: "double Math_PI = Val p" "1 \<le> p" "p \<le> 8"
    using double_PI by blast
  define w where "w = - t1"
  have w: "1 / 2 ^ 503 \<le> w" "w \<le> 1 / 2 ^ 50"
    using t1(2,3) by (simp_all add: w_def)
  have "(0 :: real) \<le> 1 / 2 ^ 503" by simp
  then have w0: "0 \<le> w" using w(1) by linarith
  have "w / 8 \<le> w / p" "w / p \<le> w / 1"
    using p(2,3) w0 by (intro divide_left_mono; simp)+
  moreover have "1 / 2 ^ 503 / 8 \<le> w / 8"
    using w(1) by (intro divide_right_mono) simp_all
  moreover have "(1 :: real) / 2 ^ 503 / 8 = 1 / 2 ^ 506" by simp
  ultimately have "1 / 2 ^ 506 \<le> w / p" "w / p \<le> 1 / 2 ^ 50"
    using w(2) by linarith+
  moreover have "w / p = - (t1 / p)" by (simp add: w_def)
  ultimately have "1 / 2 ^ 506 \<le> - (t1 / p)" "- (t1 / p) \<le> 1 / 2 ^ 50"
    by simp_all
  then have "\<exists>z. double (Val (t1 / p)) = Val z \<and> 1 / 2 ^ 506 / 2 \<le> - z \<and> - z \<le> 2 * (1 / 2 ^ 50)"
    by (rule double_negative_range) simp_all
  then obtain t2 where t2: "double (Val (t1 / p)) = Val t2"
      "1 / 2 ^ 507 \<le> - t2" "- t2 \<le> 1 / 2 ^ 49"
    by auto
  have angle: "double (double (double (Math_atan2 (Val y) (Val 1)) * Val 180) / double Math_PI)
      = Val t2"
    using p(2) by (simp add: atan2_def t0(1) t1(1) p(1) t2(1))
  have neg: "t2 < 0"
    using t2(2) by simp
  txt \<open>The sum with 360 is rounded to 360.\<close>
  have "nearest_double (360 + t2) = 360"
    using t2(3) neg by (intro nearest_double_near_360) simp_all
  then have "double (Val (t2 + 360)) = Val 360"
    by (simp add: double_Val add.commute)
  then show ?thesis
    unfolding toPolar_double_def fst_conv snd_conv dist angle Let_def
    using neg by simp
qed

text \<open>
  Claim C7 says that the angle returned by \<open>toPolar\<close> lies in \<open>[0, 360)\<close>; the comment
  of the function promises an angle in degrees between 0 and 360, and the function adds
  360 to the negative angles to get there. Computed in double arithmetic, as the program
  does, it returns the angle 360 for the point \<open>[1, -1e-20]\<close>, the second entry being the
  double that this literal denotes, and for the point \<open>[1, -1 / 2 ^ 67]\<close>: the result
  \<open>[1, 360]\<close> is outside the range of the claim.
\<close>

theorem toPolar_returns_360:
  "toPolar_double (Val 1, double (Val (- (1 / 10 ^ 20)))) = (Val 1, Val 360)
   \<and> toPolar_double (Val 1, Val (- (1 / 2 ^ 67))) = (Val 1, Val 360)"
proof
  have "\<exists>z. double (Val (- (1 / 10 ^ 20))) = Val z
      \<and> 1 / 10 ^ 20 / 2 \<le> - z \<and> - z \<le> 2 * (1 / 10 ^ 20)"
    by (rule double_negative_range) simp_all
  then obtain z where z: "double (Val (- (1 / 10 ^ 20))) = Val z"
      "1 / 10 ^ 20 / 2 \<le> - z" "- z \<le> 2 * (1 / 10 ^ 20)"
    by blast
  have "(1 :: real) / 2 ^ 500 \<le> 1 / 10 ^ 20 / 2" "(2 :: real) * (1 / 10 ^ 20) \<le> 1 / 2 ^ 60"
    by simp_all
  then have "1 / 2 ^ 500 \<le> - z" "- z \<le> 1 / 2 ^ 60"
    using z(2,3) by linarith+
  then have "toPolar_double (Val 1, Val z) = (Val 1, Val 360)"
    by (rule toPolar_double_below_axis)
  then show "toPolar_double (Val 1, double (Val (- (1 / 10 ^ 20)))) = (Val 1, Val 360)"
    by (simp only: z(1))
  show "toPolar_double (Val 1, Val (- (1 / 2 ^ 67))) = (Val 1, Val 360)"
    by (rule toPolar_double_below_axis) simp_all
qed

section \<open>Angle normalization\<close>

lemma digits_small: "n < 10 \<Longrightarrow> digits n = [''0123456789'' ! n]"
  by (subst digits.simps) simp

lemma digits_large: "10 \<le> n \<Longrightarrow> digits n = digits (n div 10) @ [''0123456789'' ! (n mod 10)]"
  by (subst digits.simps) simp

text \<open>
  Before it is rounded the normalized angle is in \<open>[0, 360)\<close>: the first remainder is
  strictly between -360 and 360, and the second one has a non-negative dividend.
\<close>

lemma remainder_positive:
  assumes "0 \<le> n" and "0 < d"
  shows "\<exists>v. remainder (Val n) (Val d) = Val v \<and> 0 \<le> v \<and> v < d"
proof -
  let ?k = "\<lfloor>n / d\<rfloor>"
  have q: "0 \<le> n / d" using assms by simp
  have "of_int ?k \<le> n / d" "n / d < of_int ?k + 1"
    by linarith+
  then have "of_int ?k * d \<le> n" "n < (of_int ?k + 1) * d"
    using assms(2) by (simp_all only: pos_le_divide_eq pos_divide_less_eq)
  then have "d * of_int ?k \<le> n" "n < d * of_int ?k + d"
    by (simp_all add: algebra_simps)
  then have "0 \<le> n - d * of_int ?k" "n - d * of_int ?k < d"
    by linarith+
  moreover have "remainder (Val n) (Val d) = Val (n - d * of_int ?k)"
    using assms(2) q by (simp add: trunc_def)
  ultimately show ?thesis by blast
qed

lemma remainder_bounded:
  assumes "0 < d"
  shows "\<exists>v. remainder (Val n) (Val d) = Val v \<and> - d < v \<and> v < d"
proof (cases "0 \<le> n")
  case True
  then obtain v where "remainder (Val n) (Val d) = Val v" "0 \<le> v" "v < d"
    using remainder_positive [OF _ assms] by blast
  then show ?thesis using assms by (intro exI [of _ v]) simp
next
  case False
  let ?k = "\<lceil>n / d\<rceil>"
  have q: "\<not> 0 \<le> n / d" using False assms by (simp add: field_simps)
  have "n / d \<le> of_int ?k" "of_int ?k - 1 < n / d"
    by linarith+
  then have "n \<le> of_int ?k * d" "(of_int ?k - 1) * d < n"
    using assms by (simp_all only: pos_divide_le_eq pos_less_divide_eq)
  then have "n \<le> d * of_int ?k" "d * of_int ?k - d < n"
    by (simp_all add: algebra_simps)
  then have "n - d * of_int ?k \<le> 0" "- d < n - d * of_int ?k"
    by linarith+
  moreover have "remainder (Val n) (Val d) = Val (n - d * of_int ?k)"
    using assms q by (simp add: trunc_def)
  ultimately show ?thesis using assms by (intro exI [of _ "n - d * of_int ?k"]) simp
qed

lemma normalized_range:
  "\<exists>v. remainder (remainder (Val a) (Val 360) + Val 360) (Val 360) = Val v \<and> 0 \<le> v \<and> v < 360"
proof -
  obtain u where u: "remainder (Val a) (Val 360) = Val u" "- 360 < u"
    using remainder_bounded [of 360 a] by auto
  have "0 \<le> u + 360" using u(2) by simp
  then show ?thesis
    unfolding u(1) using remainder_positive [of "u + 360" 360] by simp
qed

lemma toFixed_some:
  assumes "0 \<le> v" "v < 360"
  shows "toFixed (Val v) 2 \<noteq> None"
  using assms by (simp add: toFixed_def Let_def)

lemma normalizeAngle_before_rounding:
  "\<exists>v. 0 \<le> v \<and> v < 360 \<and> normalizeAngle (Val a) = toFixed (Val v) 2
       \<and> normalizeAngle (Val a) \<noteq> None"
proof -
  obtain v where v: "remainder (remainder (Val a) (Val 360) + Val 360) (Val 360) = Val v"
    "0 \<le> v" "v < 360"
    using normalized_range [of a] by blast
  have "normalizeAngle (Val a) = toFixed (Val v) 2"
    unfolding normalizeAngle_def v(1) ..
  then show ?thesis
    using v(2,3) toFixed_some [OF v(2,3)] by (intro exI [of _ v]) simp
qed

lemma normalized_370: "remainder (remainder (Val 370) (Val 360) + Val 360) (Val 360) = Val 10"
  by (simp add: trunc_def)

lemma normalized_minus_10:
  "remainder (remainder (Val (- 10)) (Val 360) + Val 360) (Val 360) = Val 350"
proof -
  have "\<lceil>- 10 / 360 :: real\<rceil> = 0"
    by (rule ceiling_unique) simp_all
  then have "remainder (Val (- 10)) (Val 360) = Val (- 10)"
    by (simp add: trunc_def)
  then show ?thesis
    by (simp add: trunc_def)
qed

lemma normalized_minus_thousandth:
  "remainder (remainder (Val (- 0.001)) (Val 360) + Val 360) (Val 360) = Val 359.999"
proof -
  have "\<lceil>- 0.001 / 360 :: real\<rceil> = 0"
    by (rule ceiling_unique) simp_all
  then have "remainder (Val (- 0.001)) (Val 360) = Val (- 0.001)"
    by (simp add: trunc_def)
  then show ?thesis
    by (simp add: trunc_def)
qed

lemma normalized_360: "remainder (remainder (Val 360) (Val 360) + Val 360) (Val 360) = Val 0"
  by (simp add: trunc_def)

lemma normalized_359_999:
  "remainder (remainder (Val 359.999) (Val 360) + Val 360) (Val 360) = Val 359.999"
  by (simp add: trunc_def)

lemma toFixed_10: "toFixed (Val 10) 2 = Some ''10.00''"
  by (simp add: toFixed_def digits_small digits_large)

lemma toFixed_350: "toFixed (Val 350) 2 = Some ''350.00''"
  by (simp add: toFixed_def digits_small digits_large)

lemma toFixed_0: "toFixed (Val 0) 2 = Some ''0.00''"
  by (simp add: toFixed_def digits_small digits_large)

lemma toFixed_359_999: "toFixed (Val 359.999) 2 = Some ''360.00''"
  by (simp add: toFixed_def digits_small digits_large)

lemma normalizeAngle_examples:
  "normalizeAngle (Val 370) = Some ''10.00''"
  "normalizeAngle (Val (- 10)) = Some ''350.00''"
  "normalizeAngle (Val 360) = Some ''0.00''"
  unfolding normalizeAngle_def normalized_370 normalized_minus_10 normalized_360
  by (rule toFixed_10, rule toFixed_350, rule toFixed_0)

text \<open>
  Claim C6. The three values of the specification hold (\<open>normalizeAngle_examples\<close>), and
  the value that is rounded is in \<open>[0, 360)\<close> (\<open>normalizeAngle_before_rounding\<close>). The
  rounding comes last, though, and rounds every value from 359.995 on up to 360: the
  string returned for 359.999, and for -0.001, is \<open>360.00\<close>, which does not represent
  a value in \<open>[0, 360)\<close>.
\<close>

theorem normalizeAngle_returns_360:
  "normalizeAngle (Val 359.999) = Some ''360.00''
   \<and> normalizeAngle (Val (- 0.001)) = Some ''360.00''"
  unfolding normalizeAngle_def normalized_359_999 normalized_minus_thousandth
  by (simp only: toFixed_359_999)

section \<open>What the conversions write\<close>

lemma get_elem_old: "r < length h \<Longrightarrow> get_elem (h @ hs) r i = get_elem h r i"
  by (simp add: get_elem_def nth_append)

lemma get_elem_new:
  "get_elem (h @ [xs]) (length h) i = (if i < length xs then xs ! i else NaN)"
  by (simp add: get_elem_def)

lemma set_elem_new:
  "set_elem (h @ [xs]) (length h) i v
    = h @ [if i < length xs then xs[i := v] else xs @ replicate (i - length xs) NaN @ [v]]"
  by (simp add: set_elem_def Let_def)

lemma Coordinate_rotate_at_new:
  "Coordinate_rotate_at (length h) angle (h @ [[a, b]])
    = h @ [[fst (Coordinate_rotate (a, b) angle), snd (Coordinate_rotate (a, b) angle)]]"
  by (simp add: Coordinate_rotate_at_def Coordinate_rotate_def Let_def get_elem_new set_elem_new)

lemma fromLonLat_at_new:
  "fromLonLat_at this coords h
    = (length h,
       h @ [[fst (fromLonLat (with_origin_of h this) (get_elem h coords 0, get_elem h coords 1)),
             snd (fromLonLat (with_origin_of h this)
                    (get_elem h coords 0, get_elem h coords 1))]])"
  by (simp add: fromLonLat_at_def fromLonLat_def with_origin_of_def new_array_def Let_def
      Coordinate_rotate_at_new get_elem_new set_elem_new)

lemma toLonLat_at_new:
  assumes "this_origin this < length h"
  shows "toLonLat_at this coords h
    = (Suc (length h),
       h @ [[fst (Coordinate_rotate (get_elem h coords 0,
                    get_elem h coords 1 * this_yMul this) (this_angle this)),
             snd (Coordinate_rotate (get_elem h coords 0,
                    get_elem h coords 1 * this_yMul this) (this_angle this))],
            [fst (toLonLat (with_origin_of h this) (get_elem h coords 0, get_elem h coords 1)),
             snd (toLonLat (with_origin_of h this)
                    (get_elem h coords 0, get_elem h coords 1))]])"
proof -
  let ?r = "Coordinate_rotate (get_elem h coords 0, get_elem h coords 1 * this_yMul this)
      (this_angle this)"
  let ?h = "h @ [[fst ?r, snd ?r]]"
  have g: "get_elem ?h (length h) 0 = fst ?r" "get_elem ?h (length h) 1 = snd ?r"
    by (simp_all add: get_elem_new)
  have o: "get_elem ?h (this_origin this) i = get_elem h (this_origin this) i" for i
    using assms by (rule get_elem_old)
  show ?thesis
    unfolding toLonLat_at_def new_array_def Let_def split_conv Coordinate_rotate_at_new g o
    by (simp add: toLonLat_def with_origin_of_def Let_def)
qed

text \<open>
  Claim C10. Neither conversion writes to the array it is given: the reference returned
  is a new one (not a reference of the store before the call, so not the argument), every
  array of the store before the call is unchanged after it, the argument in particular,
  and the new array holds the converted pair. \<open>toLonLat\<close> allocates two arrays, the one
  it rotates in place and the one it returns. The argument and the origin of the object
  are arrays of the store; they may be the same array.
\<close>

theorem conversions_leave_input_unchanged:
  assumes "coords < length h" and "this_origin this < length h"
  shows "(case fromLonLat_at this coords h of
            (result, h') \<Rightarrow>
              result \<noteq> coords \<and> length h \<le> result \<and> result < length h'
              \<and> h' ! coords = h ! coords \<and> take (length h) h' = h
              \<and> h' ! result
                  = [fst (fromLonLat (with_origin_of h this)
                            (get_elem h coords 0, get_elem h coords 1)),
                     snd (fromLonLat (with_origin_of h this)
                            (get_elem h coords 0, get_elem h coords 1))])
       \<and> (case toLonLat_at this coords h of
            (result, h') \<Rightarrow>
              result \<noteq> coords \<and> length h \<le> result \<and> result < length h'
              \<and> h' ! coords = h ! coords \<and> take (length h) h' = h
              \<and> h' ! result
                  = [fst (toLonLat (with_origin_of h this)
                            (get_elem h coords 0, get_elem h coords 1)),
                     snd (toLonLat (with_origin_of h this)
                            (get_elem h coords 0, get_elem h coords 1))])"
  using assms(1) unfolding fromLonLat_at_new toLonLat_at_new [OF assms(2)]
  by (simp add: nth_append)

text \<open>The witness converts the origin array itself: argument and origin are one array.\<close>

theorem conversions_leave_input_unchanged_witness:
  "(0 :: nat) < length [[Val 19, Val 47]]
   \<and> this_origin
        \<lparr> this_origin = 0 :: nat, this_angle = Val 0, this_ellipsoid = WGS84,
          this_type = ''neu'', this_piOver180 = Val (pi / 180), this_r1 = Val 6369620,
          this_r2OverCosOriginLatInRadians = Val 4357420, this_yMul = Val 1 \<rparr>
        < length [[Val 19, Val 47]]
   \<and> (case fromLonLat_at
        \<lparr> this_origin = 0, this_angle = Val 0, this_ellipsoid = WGS84, this_type = ''neu'',
          this_piOver180 = Val (pi / 180), this_r1 = Val 6369620,
          this_r2OverCosOriginLatInRadians = Val 4357420, this_yMul = Val 1 \<rparr> 0
        [[Val 19, Val 47]] of
        (result, h') \<Rightarrow> result \<noteq> 0 \<and> h' ! 0 = [Val 19, Val 47])
   \<and> (case toLonLat_at
        \<lparr> this_origin = 0, this_angle = Val 0, this_ellipsoid = WGS84, this_type = ''neu'',
          this_piOver180 = Val (pi / 180), this_r1 = Val 6369620,
          this_r2OverCosOriginLatInRadians = Val 4357420, this_yMul = Val 1 \<rparr> 0
        [[Val 19, Val 47]] of
        (result, h') \<Rightarrow> result \<noteq> 0 \<and> h' ! 0 = [Val 19, Val 47])"
  using conversions_leave_input_unchanged [where coords = 0 and h = "[[Val 19, Val 47]]"
      and this = "\<lparr> this_origin = 0, this_angle = Val 0, this_ellipsoid = WGS84,
          this_type = ''neu'', this_piOver180 = Val (pi / 180), this_r1 = Val 6369620,
          this_r2OverCosOriginLatInRadians = Val 4357420, this_yMul = Val 1 \<rparr>"]
  by (auto split: prod.splits)

section \<open>One degree north\<close>

text \<open>
  Bounds on \<open>\<pi>\<close> from the Taylor polynomial of the sine at two points around \<open>\<pi> / 6\<close>,
  where the sine is \<open>1 / 2\<close>.
\<close>

lemma fact_values: "fact 3 = (6 :: real)" "fact 5 = (120 :: real)" "fact 6 = (720 :: real)"
  by (simp_all add: fact_numeral)

lemma sin_coeffs:
  "sin_coeff 1 = 1" "sin_coeff 2 = 0" "sin_coeff 3 = - 1 / 6" "sin_coeff 4 = 0"
  "sin_coeff 5 = 1 / 120"
  by (simp_all add: sin_coeff_def fact_values)

lemma below_six: "{..<6 :: nat} = {0, 1, 2, 3, 4, 5}"
  by auto

lemma sin_taylor_6:
  fixes x :: real
  shows "\<bar>sin x - (x - x ^ 3 / 6 + x ^ 5 / 120)\<bar> \<le> \<bar>x\<bar> ^ 6 / 720"
proof -
  have "(\<Sum>m<6. sin_coeff m * x ^ m)
      = sin_coeff 0 * x ^ 0 + sin_coeff 1 * x ^ 1 + sin_coeff 2 * x ^ 2 + sin_coeff 3 * x ^ 3
        + sin_coeff 4 * x ^ 4 + sin_coeff 5 * x ^ 5"
    unfolding below_six by simp
  also have "\<dots> = x - x ^ 3 / 6 + x ^ 5 / 120"
    unfolding sin_coeffs by simp
  finally have s: "(\<Sum>m<6. sin_coeff m * x ^ m) = x - x ^ 3 / 6 + x ^ 5 / 120" .
  have e: "inverse (fact 6) * \<bar>x\<bar> ^ 6 = \<bar>x\<bar> ^ 6 / 720"
    unfolding fact_values by simp
  have "\<bar>sin x - (\<Sum>m<6. sin_coeff m * x ^ m)\<bar> \<le> inverse (fact 6) * \<bar>x\<bar> ^ 6"
    by (rule Maclaurin_sin_bound)
  then show ?thesis
    unfolding s e .
qed

lemma pi_bounds: "3.1392 < pi" "pi < 3.147"
proof -
  have half: "1 \<le> pi / 2"
    using pi_ge_two by simp
  have six: "- (pi / 2) \<le> pi / 6" "pi / 6 \<le> pi / 2"
    using pi_gt_zero by simp_all
  have "sin 0.5232 \<le> (0.5232 - 0.5232 ^ 3 / 6 + 0.5232 ^ 5 / 120) + \<bar>0.5232 :: real\<bar> ^ 6 / 720"
    using sin_taylor_6 [of "0.5232"] by linarith
  also have "\<dots> < 1 / 2"
    by (simp add: power_divide)
  finally have "sin 0.5232 < sin (pi / 6)"
    by (simp add: sin_30)
  then have "0.5232 < pi / 6"
    using half six by (subst (asm) sin_mono_less_eq) simp_all
  then show "3.1392 < pi" by simp
  have "1 / 2 < (0.5245 - 0.5245 ^ 3 / 6 + 0.5245 ^ 5 / 120) - \<bar>0.5245 :: real\<bar> ^ 6 / 720"
    by (simp add: power_divide)
  also have "\<dots> \<le> sin 0.5245"
    using sin_taylor_6 [of "0.5245"] by linarith
  finally have "sin (pi / 6) < sin 0.5245"
    by (simp add: sin_30)
  then have "pi / 6 < 0.5245"
    using half six by (subst (asm) sin_mono_less_eq) simp_all
  then show "pi < 3.147" by simp
qed

text \<open>
  The origin latitude of 47 degrees lies between 45 and 60 degrees, which bounds its
  sine, then \<open>x\<close>, then \<open>x\<^sup>1\<^sup>.\<^sup>5 = x sqrt x\<close>, then \<open>r1\<close>.
\<close>

lemma sin_47_squared: "1 / 2 \<le> (sin (47 * (pi / 180)))\<^sup>2" "(sin (47 * (pi / 180)))\<^sup>2 \<le> 3 / 4"
proof -
  have r: "- (pi / 2) \<le> pi / 4" "pi / 4 \<le> 47 * (pi / 180)" "47 * (pi / 180) \<le> pi / 3"
    "pi / 3 \<le> pi / 2"
    using pi_gt_zero by simp_all
  have "sin (pi / 4) \<le> sin (47 * (pi / 180))"
    using r by (intro sin_monotone_2pi_le) simp_all
  then have lo: "sqrt 2 / 2 \<le> sin (47 * (pi / 180))"
    by (simp add: sin_45)
  have "sin (47 * (pi / 180)) \<le> sin (pi / 3)"
    using r by (intro sin_monotone_2pi_le) simp_all
  then have hi: "sin (47 * (pi / 180)) \<le> sqrt 3 / 2"
    by (simp add: sin_60)
  have "(sqrt 2 / 2)\<^sup>2 \<le> (sin (47 * (pi / 180)))\<^sup>2"
    using lo by (intro power_mono) simp_all
  then show "1 / 2 \<le> (sin (47 * (pi / 180)))\<^sup>2"
    by (simp add: power_divide)
  have "0 \<le> sin (47 * (pi / 180))"
    using lo by (rule order_trans [rotated]) simp
  then have "(sin (47 * (pi / 180)))\<^sup>2 \<le> (sqrt 3 / 2)\<^sup>2"
    using hi by (intro power_mono) simp_all
  then show "(sin (47 * (pi / 180)))\<^sup>2 \<le> 3 / 4"
    by (simp add: power_divide)
qed

lemma WGS84_e2_bounds: "0.00669 < WGS84_e2" "WGS84_e2 < 0.0067"
  by (simp_all add: WGS84_e2_def)

lemma WGS84_finite:
  "semiMajorAxis WGS84 = Val 6378137" "eccentricitySquared WGS84 = Val WGS84_e2"
  by (simp_all add: WGS84_def makeEllipsoidModel_def WGS84_e2_def Let_def)

lemma spec_x_47: "0.994975 \<le> spec_x WGS84_e2 47" "spec_x WGS84_e2 47 \<le> 0.996655"
proof -
  let ?s = "(sin (47 * (pi / 180)))\<^sup>2"
  have "WGS84_e2 * ?s \<le> 0.0067 * (3 / 4)"
    using WGS84_e2_bounds sin_47_squared by (intro mult_mono) simp_all
  then show "0.994975 \<le> spec_x WGS84_e2 47"
    by (simp add: spec_x_def)
  have "0.00669 * (1 / 2) \<le> WGS84_e2 * ?s"
    using WGS84_e2_bounds sin_47_squared by (intro mult_mono) simp_all
  then show "spec_x WGS84_e2 47 \<le> 0.996655"
    by (simp add: spec_x_def)
qed

lemma powr_3_halves: "0 \<le> x \<Longrightarrow> x powr 1.5 = x * sqrt x"
proof -
  assume x: "0 \<le> x"
  have "x powr 1.5 = x powr (1 + 1 / 2)" by simp
  also have "\<dots> = x powr 1 * x powr (1 / 2)" by (rule powr_add)
  also have "\<dots> = x * sqrt x" using x by (simp add: powr_half_sqrt)
  finally show ?thesis .
qed

lemma spec_x_47_powr:
  "0.99246766 \<le> spec_x WGS84_e2 47 powr 1.5" "spec_x WGS84_e2 47 powr 1.5 \<le> 0.9949906"
proof -
  let ?x = "spec_x WGS84_e2 47"
  have x0: "0 \<le> ?x" using spec_x_47(1) by simp
  have "0.99748\<^sup>2 \<le> ?x"
    using spec_x_47(1) by (simp add: power2_eq_square)
  then have s_lo: "0.99748 \<le> sqrt ?x"
    by (rule real_le_rsqrt)
  have "?x \<le> 0.99833\<^sup>2"
    using spec_x_47(2) by (simp add: power2_eq_square)
  then have s_hi: "sqrt ?x \<le> 0.99833"
    by (intro real_le_lsqrt) simp_all
  have "0.994975 * 0.99748 \<le> ?x * sqrt ?x"
    using spec_x_47(1) s_lo by (intro mult_mono) simp_all
  then show "0.99246766 \<le> ?x powr 1.5"
    unfolding powr_3_halves [OF x0] by simp
  have "?x * sqrt ?x \<le> 0.996655 * 0.99833"
    using spec_x_47(2) s_hi x0 by (intro mult_mono) simp_all
  then show "?x powr 1.5 \<le> 0.9949906"
    unfolding powr_3_halves [OF x0] by simp
qed

lemma spec_r1_47: "6367200 \<le> spec_r1 6378137 WGS84_e2 47" "spec_r1 6378137 WGS84_e2 47 \<le> 6383551"
proof -
  let ?A = "6378137 * (1 - WGS84_e2)" and ?P = "spec_x WGS84_e2 47 powr 1.5"
  have A: "6335403.4821 \<le> ?A" "?A \<le> 6335467.26347"
    using WGS84_e2_bounds by simp_all
  have "(0 :: real) < 0.99246766" by simp
  then have P0: "0 < ?P" using spec_x_47_powr(1) by (rule less_le_trans)
  have "(6367200 :: real) \<le> 6335403.4821 / 0.9949906"
    by simp
  also have "\<dots> \<le> ?A / ?P"
    using A(1) P0 spec_x_47_powr(2) by (intro frac_le) simp_all
  finally show "6367200 \<le> spec_r1 6378137 WGS84_e2 47"
    unfolding spec_r1_def .
  have "?A / ?P \<le> 6335467.26347 / 0.99246766"
    using A spec_x_47_powr(1) by (intro frac_le) simp_all
  also have "\<dots> \<le> (6383551 :: real)"
    by simp
  finally show "spec_r1 6378137 WGS84_e2 47 \<le> 6383551"
    unfolding spec_r1_def .
qed

lemma one_degree_north: 
  "111000 \<le> spec_r1 6378137 WGS84_e2 47 * pi / 180"
  "spec_r1 6378137 WGS84_e2 47 * pi / 180 \<le> 111700"
proof -
  let ?r = "spec_r1 6378137 WGS84_e2 47"
  have "(111000 :: real) \<le> 6367200 * 3.1392 / 180"
    by simp
  also have "6367200 * 3.1392 \<le> ?r * pi"
    using spec_r1_47(1) pi_bounds(1) by (intro mult_mono) simp_all
  then have "6367200 * 3.1392 / 180 \<le> ?r * pi / 180"
    by (rule divide_right_mono) simp
  finally show "111000 \<le> ?r * pi / 180" .
  have "0 \<le> ?r"
    using spec_r1_47(1) by simp
  then have "?r * pi \<le> 6383551 * 3.147"
    using spec_r1_47(2) pi_bounds(2) by (intro mult_mono) simp_all
  then have "?r * pi / 180 \<le> 6383551 * 3.147 / 180"
    by (rule divide_right_mono) simp
  also have "\<dots> \<le> 111700"
    by simp
  finally show "?r * pi / 180 \<le> 111700" .
qed

text \<open>
  Claim C2. The constructor caches \<open>r1 = a (1 - e\<^sup>2) / x\<^sup>1\<^sup>.\<^sup>5\<close> with
  \<open>x = 1 - e\<^sup>2 sin\<^sup>2 lat\<^sub>0\<close>, and \<open>fromLonLat\<close> computes the north component
  \<open>(lat - lat\<^sub>0) (\<pi> / 180) r1\<close> before it rotates: the first component returned is the
  north component times the cosine of the angle plus the east component times its sine,
  which for the angle 0 is the north component itself. For \<open>WGS84\<close>, the origin
  \<open>(19, 47)\<close>, the angle 0 and the convention \<open>neu\<close>, the point \<open>(19, 48)\<close> is mapped to
  \<open>(r1 \<pi> / 180, 0)\<close>, and \<open>r1 \<pi> / 180\<close> lies between 111000 and 111700.
\<close>

theorem north_component:
  assumes "t = ''neu'' \<or> t = ''nwu''"
    and "semiMajorAxis ell = Val a" and "eccentricitySquared ell = Val q"
    and "0 < spec_x q olat"
  shows "(\<exists>this.
            new_FlatEarthCoordinateSystem (Val olon, Val olat) (Some (Val ang)) (Some t) (Some ell)
              = Inr this
          \<and> this_r1 this = Val (spec_r1 a q olat)
          \<and> fromLonLat this (Val lon, Val lat)
              = (let result = Coordinate_rotate
                       (Val ((lat - olat) * (pi / 180) * spec_r1 a q olat),
                        Val ((lon - olon) * (pi / 180) * spec_r2_over_cos a q olat))
                       (- this_angle this)
                 in (fst result, snd result * this_yMul this))
          \<and> fst (fromLonLat this (Val lon, Val lat))
              = Val ((lat - olat) * (pi / 180) * spec_r1 a q olat * cos (ang * pi / 180)
                   + (lon - olon) * (pi / 180) * spec_r2_over_cos a q olat
                     * sin (ang * pi / 180))
          \<and> (ang = 0 \<longrightarrow>
                fst (fromLonLat this (Val lon, Val lat))
                  = Val ((lat - olat) * (pi / 180) * spec_r1 a q olat)))
       \<and> (\<exists>this v.
            new_FlatEarthCoordinateSystem (Val 19.0, Val 47.0) (Some (Val 0)) (Some ''neu'')
              (Some WGS84) = Inr this
          \<and> fromLonLat this (Val 19.0, Val 48.0) = (Val v, Val 0)
          \<and> v = spec_r1 6378137 WGS84_e2 47 * pi / 180
          \<and> 111000 \<le> v \<and> v \<le> 111700)"
proof (intro conjI)
  let ?cs = "\<lparr> this_origin = (Val olon, Val olat),
            this_angle = Val (ang * pi / 180),
            this_ellipsoid = ell,
            this_type = t,
            this_piOver180 = Val (pi / 180),
            this_r1 = Val (spec_r1 a q olat),
            this_r2OverCosOriginLatInRadians = Val (spec_r2_over_cos a q olat),
            this_yMul = Val (if t = ''neu'' then 1 else - 1) \<rparr>"
  have new: "new_FlatEarthCoordinateSystem (Val olon, Val olat) (Some (Val ang)) (Some t) (Some ell)
      = Inr ?cs"
    using assms by (rule new_FlatEarthCoordinateSystem_finite)
  have r: "this_r1 ?cs = Val (spec_r1 a q olat)"
    by simp
  have n: "fromLonLat ?cs (Val lon, Val lat)
      = (let result = Coordinate_rotate
               (Val ((lat - olat) * (pi / 180) * spec_r1 a q olat),
                Val ((lon - olon) * (pi / 180) * spec_r2_over_cos a q olat))
               (- this_angle ?cs)
         in (fst result, snd result * this_yMul ?cs))"
    by (simp add: fromLonLat_def)
  have f: "fst (fromLonLat ?cs (Val lon, Val lat))
      = Val ((lat - olat) * (pi / 180) * spec_r1 a q olat * cos (ang * pi / 180)
            + (lon - olon) * (pi / 180) * spec_r2_over_cos a q olat * sin (ang * pi / 180))"
    by (simp add: fromLonLat_finite [where olon = olon and olat = olat
          and \<theta> = "ang * pi / 180" and k = "pi / 180" and ?r1.0 = "spec_r1 a q olat"
          and ?r2.0 = "spec_r2_over_cos a q olat" and ym = "if t = ''neu'' then 1 else - 1"])
  have z: "ang = 0 \<longrightarrow>
      fst (fromLonLat ?cs (Val lon, Val lat)) = Val ((lat - olat) * (pi / 180) * spec_r1 a q olat)"
    unfolding f by simp
  show "\<exists>this.
            new_FlatEarthCoordinateSystem (Val olon, Val olat) (Some (Val ang)) (Some t) (Some ell)
              = Inr this
          \<and> this_r1 this = Val (spec_r1 a q olat)
          \<and> fromLonLat this (Val lon, Val lat)
              = (let result = Coordinate_rotate
                       (Val ((lat - olat) * (pi / 180) * spec_r1 a q olat),
                        Val ((lon - olon) * (pi / 180) * spec_r2_over_cos a q olat))
                       (- this_angle this)
                 in (fst result, snd result * this_yMul this))
          \<and> fst (fromLonLat this (Val lon, Val lat))
              = Val ((lat - olat) * (pi / 180) * spec_r1 a q olat * cos (ang * pi / 180)
                   + (lon - olon) * (pi / 180) * spec_r2_over_cos a q olat
                     * sin (ang * pi / 180))
          \<and> (ang = 0 \<longrightarrow>
                fst (fromLonLat this (Val lon, Val lat))
                  = Val ((lat - olat) * (pi / 180) * spec_r1 a q olat))"
    by (rule exI [of _ ?cs]) (intro conjI new r n f z)
next
  let ?r1 = "spec_r1 6378137 WGS84_e2 47"
  let ?cs = "\<lparr> this_origin = (Val 19, Val 47),
            this_angle = Val (0 * pi / 180),
            this_ellipsoid = WGS84,
            this_type = ''neu'',
            this_piOver180 = Val (pi / 180),
            this_r1 = Val ?r1,
            this_r2OverCosOriginLatInRadians = Val (spec_r2_over_cos 6378137 WGS84_e2 47),
            this_yMul = Val (if ''neu'' = ''neu'' then 1 else - 1) \<rparr>"
  have "WGS84_e2 < 1"
    using WGS84_e2_bounds(2) by simp
  then have x: "0 < spec_x WGS84_e2 47"
    by (rule spec_x_positive)
  have "new_FlatEarthCoordinateSystem (Val 19, Val 47) (Some (Val 0)) (Some ''neu'') (Some WGS84)
      = Inr ?cs"
    using WGS84_finite x by (intro new_FlatEarthCoordinateSystem_finite) simp_all
  moreover have "fromLonLat ?cs (Val 19, Val 48) = (Val (?r1 * pi / 180), Val 0)"
    by (simp add: fromLonLat_finite [where olon = 19 and olat = 47
          and \<theta> = "0 * pi / 180" and k = "pi / 180" and ?r1.0 = ?r1
          and ?r2.0 = "spec_r2_over_cos 6378137 WGS84_e2 47"
          and ym = "if ''neu'' = ''neu'' then 1 else - 1"])
  ultimately show "\<exists>this v.
            new_FlatEarthCoordinateSystem (Val 19.0, Val 47.0) (Some (Val 0)) (Some ''neu'')
              (Some WGS84) = Inr this
          \<and> fromLonLat this (Val 19.0, Val 48.0) = (Val v, Val 0)
          \<and> v = spec_r1 6378137 WGS84_e2 47 * pi / 180
          \<and> 111000 \<le> v \<and> v \<le> 111700"
    using one_degree_north by (intro exI [of _ ?cs] exI [of _ "?r1 * pi / 180"]) simp
qed

theorem north_component_witness:
  "(''nwu'' = ''neu'' \<or> ''nwu'' = ''nwu'')
   \<and> semiMajorAxis WGS84 = Val 6378137
   \<and> eccentricitySquared WGS84 = Val WGS84_e2
   \<and> 0 < spec_x WGS84_e2 47
   \<and> (\<exists>this. new_FlatEarthCoordinateSystem (Val 19, Val 47) (Some (Val 0)) (Some ''nwu'')
              (Some WGS84) = Inr this
          \<and> fst (fromLonLat this (Val 19, Val 48))
              = Val ((48 - 47) * (pi / 180) * spec_r1 6378137 WGS84_e2 47))"
proof -
  have "WGS84_e2 < 1"
    using WGS84_e2_bounds(2) by simp
  then have x: "0 < spec_x WGS84_e2 47"
    by (rule spec_x_positive)
  show ?thesis
    using north_component [where t = "''nwu''" and ell = WGS84 and a = 6378137
        and q = WGS84_e2 and olat = 47 and olon = 19 and ang = 0 and lon = 19 and lat = 48]
      WGS84_finite x
    by auto
qed

end
